theory Spec2Isabelle
  imports Main
begin

section \<open>Data model (symbolic.ts)\<close>

text \<open>
  Every TypeScript object whose identity the sources compare with \<open>===\<close>, or which they
  mutate in place, lives in a store and is denoted by a reference; \<open>===\<close> on two
  objects is equality of their references. A store is a total function: the sources
  hold no dangling reference.
\<close>

type_synonym ref = nat

datatype SymbolKind = Type | Function | Variable

datatype PrimitiveType = Template | String | Bool | Number | Void | Any | Auto

text \<open>
  Modelled from the spec: the node tags of nodes.ts, which is not among the sources.
  \<open>Class\<close>, \<open>Interface\<close> and \<open>FuncCall\<close> are the tags the sources name; the others
  stand for the remaining node types the sources import.
\<close>

datatype NodeName = Class | Interface | Enum | Func | If | FuncCall | ConstructCall

text \<open>
  Modelled from the spec: \<open>LocationInfo\<close>, \<open>ParsedRange\<close> and \<open>getNodeLocation\<close>
  (tokens.ts and nodes.ts, not among the sources). Locations and ranges are opaque to
  this core; the location computed from a node range is kept symbolic.
\<close>

datatype ParsedRange = ParsedRange nat

datatype LocationInfo = LocationInfo nat | getNodeLocation ParsedRange

text \<open>
  Modelled from the spec: a lexical token (parsingToken.ts, not among the sources) with
  the two fields the sources read, \<open>text\<close> and \<open>location\<close>.
\<close>

datatype ParsingToken = ParsingToken (text': string) (location: LocationInfo)

text \<open>
  Modelled from the spec: a declaration node (class, interface, enum, or the owner
  node of a scope) with the two fields the sources read, \<open>nodeName\<close> and
  \<open>identifier\<close> (a token).
\<close>

datatype NodesBase = NodesBase (nodeName: NodeName) (identifier': ref)

text \<open>
  Modelled from the spec: one entry of \<open>NodeFunc.paramList\<close>; \<open>identifier?\<close> is an
  optional token, \<open>defaultExpr\<close> an optional expression node, of which the sources
  only test the presence.
\<close>

datatype NodeParam = NodeParam (paramIdentifier: "ref option") (defaultExpr: "ref option")

datatype NodeFunc = NodeFunc (paramList: "NodeParam list")

text \<open>\<open>SourceType = NodeEnum | NodeClass | PrimitiveType\<close>: a node reference or a tag.\<close>

datatype SourceType = SourceNode ref | SourcePrimitive PrimitiveType

fun isSourcePrimitiveType :: "SourceType \<Rightarrow> bool" where
  "isSourcePrimitiveType (SourcePrimitive p) = True"
| "isSourcePrimitiveType (SourceNode n) = False"

text \<open>
  \<open>DeducedType\<close>: \<open>symbolType\<close> refers to a symbol (the field is called \<open>symbol\<close> in
  symbolic.ts and \<open>symbolType\<close> in checkType.ts), \<open>sourceScope\<close> to a scope.
  \<open>TemplateTranslation\<close> is a \<open>Map\<close> keyed by token identity whose values may be
  \<open>undefined\<close>: an association list from token references.
\<close>

datatype DeducedType =
  DeducedType (symbolType: ref) (sourceScope: "ref option")
    (templateTranslate: "(ref \<times> DeducedType option) list option")

type_synonym TemplateTranslation = "(ref \<times> DeducedType option) list"

text \<open>
  \<open>SymbolicObject = SymbolicType | SymbolicFunction | SymbolicVariable\<close>, each with
  the \<open>declaredPlace\<close> of \<open>SymbolicBase\<close>. \<open>baseList\<close> is the field checkType.ts reads.
\<close>

datatype SymbolicObject =
    SymbolicType (declaredPlace: ref) (sourceType: SourceType)
      (templateTypes: "ref list option") (baseList: "DeducedType option list option")
  | SymbolicFunction (declaredPlace: ref) (sourceNode: NodeFunc)
      (returnType: "DeducedType option") (parameterTypes: "DeducedType option list")
      (nextOverloadField: "ref option")
  | SymbolicVariable (declaredPlace: ref) (varType: "DeducedType option")

fun symbolKind :: "SymbolicObject \<Rightarrow> SymbolKind" where
  "symbolKind (SymbolicType _ _ _ _) = Type"
| "symbolKind (SymbolicFunction _ _ _ _ _) = Function"
| "symbolKind (SymbolicVariable _ _) = Variable"

text \<open>Reading \<open>nextOverload\<close> off an object without that property gives \<open>undefined\<close>.\<close>

fun nextOverload :: "SymbolicObject \<Rightarrow> ref option" where
  "nextOverload (SymbolicFunction _ _ _ _ n) = n"
| "nextOverload _ = None"

text \<open>
  The assignment \<open>cursor.nextOverload = symbol\<close>; \<open>cursor\<close> is a \<open>SymbolicFunction\<close>
  there, by the type of \<open>nextOverload\<close>.
\<close>

fun set_nextOverload :: "ref option \<Rightarrow> SymbolicObject \<Rightarrow> SymbolicObject" where
  "set_nextOverload v (SymbolicFunction d s r p n) = SymbolicFunction d s r p v"
| "set_nextOverload v other = other"

record ReferencedSymbolInfo =
  declaredSymbol :: ref
  referencedToken :: ref

type_synonym SymbolMap = "string \<rightharpoonup> ref"

type_synonym ScopeMap = "string \<rightharpoonup> ref"

record SymbolScope =
  ownerNode :: "ref option"
  parentScope :: "ref option"
  childScopes :: ScopeMap
  symbolMap :: SymbolMap
  referencedList :: "ReferencedSymbolInfo list"

record heap =
  tokens :: "ref \<Rightarrow> ParsingToken"
  nodes :: "ref \<Rightarrow> NodesBase"
  symbols :: "ref \<Rightarrow> SymbolicObject"
  scopes :: "ref \<Rightarrow> SymbolScope"

text \<open>
  Modelled from the spec: the diagnostic sink (code/diagnostic.ts, not among the
  sources), an append-only list of errors, each a location and a message;
  \<open>diagnostic.addError(l, m)\<close> turns the list \<open>d\<close> into \<open>d @ [(l, m)]\<close>. A message
  is kept by its template and the values spliced into it:
  \<^item> \<open>AlreadyDefined i\<close>: \<open>Symbol 'i' is already defined\<close>;
  \<^item> \<open>MissingArgument p\<close>: \<open>Missing argument for parameter 'p'\<close>;
  \<^item> \<open>CannotConvert a e\<close>: \<open>Cannot convert 'a' to parameter type 'e'\<close>;
  \<^item> \<open>TooManyArguments n k\<close>: \<open>Function has n parameters, but k were provided\<close>.
\<close>

datatype Message =
    AlreadyDefined string
  | MissingArgument "string option"
  | CannotConvert string string
  | TooManyArguments nat nat

type_synonym diagnostic = "(LocationInfo \<times> Message) list"

subsection \<open>insertSymbolicObject\<close>

text \<open>
  The \<open>for (;;)\<close> loop of \<open>insertSymbolicObject\<close>: it walks \<open>nextOverload\<close> from
  \<open>cursor\<close> and stores \<open>symbol\<close> in the first object that has none. On a cyclic
  chain it never ends: the value is \<open>None\<close>.
\<close>

partial_function (option) appendOverload ::
  "(ref \<Rightarrow> SymbolicObject) \<Rightarrow> ref \<Rightarrow> ref \<Rightarrow> (ref \<Rightarrow> SymbolicObject) option" where
  "appendOverload ss cursor symbol =
     (case nextOverload (ss cursor) of
        None \<Rightarrow> Some (ss(cursor := set_nextOverload (Some symbol) (ss cursor)))
      | Some nxt \<Rightarrow> appendOverload ss nxt symbol)"

text \<open>
  \<open>insertSymbolicObject(map, symbol)\<close> returns the boolean together with the map, the
  heap and the diagnostics it leaves behind.
\<close>

definition insertSymbolicObject ::
  "heap \<Rightarrow> diagnostic \<Rightarrow> SymbolMap \<Rightarrow> ref \<Rightarrow> (bool \<times> SymbolMap \<times> heap \<times> diagnostic) option" where
  "insertSymbolicObject h d m symbol =
     (let identifier = text' (tokens h (declaredPlace (symbols h symbol))) in
      case m identifier of
        None \<Rightarrow> Some (True, m(identifier \<mapsto> symbol), h, d)
      | Some hit \<Rightarrow>
          let canOverload = (symbolKind (symbols h symbol) = Function
                             \<and> symbolKind (symbols h hit) = Function) in
          if canOverload = False then
            Some (False, m, h,
              d @ [(location (tokens h (declaredPlace (symbols h symbol))),
                    AlreadyDefined identifier)])
          else
            map_option (\<lambda>ss. (True, m, h\<lparr>symbols := ss\<rparr>, d))
              (appendOverload (symbols h) hit symbol))"

subsection \<open>Template translation and lookup (symbolic.ts)\<close>

text \<open>\<open>xs[i]\<close> on an array of optional values: \<open>undefined\<close> beyond its end.\<close>

definition elemAt :: "'a option list \<Rightarrow> nat \<Rightarrow> 'a option" where
  "elemAt xs i = (if i < length xs then xs ! i else None)"

fun resolveTemplateType ::
  "heap \<Rightarrow> TemplateTranslation \<Rightarrow> DeducedType option \<Rightarrow> DeducedType option" where
  "resolveTemplateType h translate None = None"
| "resolveTemplateType h translate (Some arg) =
     (case map_of translate (declaredPlace (symbols h (symbolType arg))) of
        Some bound \<Rightarrow> bound
      | None \<Rightarrow> Some arg)"

definition findSymbolShallowly :: "heap \<Rightarrow> ref \<Rightarrow> string \<Rightarrow> ref option" where
  "findSymbolShallowly h scope ident = symbolMap (scopes h scope) ident"

text \<open>
  Modelled from the spec: \<open>findScopeShallowly\<close> (scope.ts, not among the sources), the
  shallow scope lookup by child-scope name.
\<close>

definition findScopeShallowly :: "heap \<Rightarrow> ref \<Rightarrow> string \<Rightarrow> ref option" where
  "findScopeShallowly h scope ident = childScopes (scopes h scope) ident"

section \<open>Type compatibility (checkType.ts)\<close>

text \<open>
  \<open>fuel\<close> is the depth of call stack left. A call that re-enters a function already
  on the stack takes one unit of it: \<open>canConstructBy\<close> and \<open>checkFunctionMatch\<close>
  calling themselves on \<open>nextOverload\<close>, and \<open>isFunctionHandlerMatch\<close> calling
  \<open>isTypeMatch\<close>. \<open>None\<close> is a call that does not return a value: the stack is
  exhausted, or an assertion or a property read of \<open>undefined\<close> throws.
\<close>

fun canConstructBy :: "nat \<Rightarrow> heap \<Rightarrow> ref \<Rightarrow> SourceType \<Rightarrow> bool option" where
  "canConstructBy fuel h constructor srcType =
     (if length (parameterTypes (symbols h constructor)) = 1
         \<and> (case parameterTypes (symbols h constructor) ! 0 of
               None \<Rightarrow> False
             | Some paramType \<Rightarrow>
                 symbolKind (symbols h (symbolType paramType)) = Type
                 \<and> sourceType (symbols h (symbolType paramType)) = srcType)
      then Some True
      else case nextOverload (symbols h constructor) of
             Some nxt \<Rightarrow>
               (case fuel of 0 \<Rightarrow> None | Suc fuel' \<Rightarrow> canConstructBy fuel' h nxt srcType)
           | None \<Rightarrow> Some False)"

definition canConstructImplicitly ::
  "nat \<Rightarrow> heap \<Rightarrow> ref \<Rightarrow> ref option \<Rightarrow> string \<Rightarrow> bool option" where
  "canConstructImplicitly fuel h srcType destScope destIdentifier =
     (case destScope of
        None \<Rightarrow> Some False
      | Some ds \<Rightarrow>
          (case findScopeShallowly h ds destIdentifier of
             None \<Rightarrow> Some False
           | Some constructorScope \<Rightarrow>
               if map_option (\<lambda>owner. nodeName (nodes h owner))
                    (ownerNode (scopes h constructorScope)) \<noteq> Some Class
               then Some False
               else
                 (case findSymbolShallowly h constructorScope destIdentifier of
                    None \<Rightarrow> Some False
                  | Some constructor \<Rightarrow>
                      if symbolKind (symbols h constructor) \<noteq> Function then Some False
                      else canConstructBy fuel h constructor
                             (sourceType (symbols h srcType)))))"

text \<open>The \<open>default: assert(false)\<close> of the switch is the value \<open>None\<close>.\<close>

definition canCastFromPrimitiveType :: "heap \<Rightarrow> ref \<Rightarrow> ref \<Rightarrow> bool option" where
  "canCastFromPrimitiveType h srcType destType =
     (let srcNode = sourceType (symbols h srcType);
          destNode = sourceType (symbols h destType)
      in case srcNode of
           SourcePrimitive Template \<Rightarrow>
             Some (destNode = SourcePrimitive Template
                   \<and> declaredPlace (symbols h srcType) = declaredPlace (symbols h destType))
         | SourcePrimitive String \<Rightarrow>
             (let destName = text' (tokens h (declaredPlace (symbols h destType)))
              in Some (destName = ''string'' \<or> destName = ''String''))
         | SourcePrimitive Void \<Rightarrow> Some False
         | SourcePrimitive Number \<Rightarrow>
             Some (sourceType (symbols h destType) = SourcePrimitive Number)
         | SourcePrimitive Bool \<Rightarrow>
             Some (sourceType (symbols h destType) = SourcePrimitive Bool)
         | SourcePrimitive Any \<Rightarrow> Some True
         | SourcePrimitive Auto \<Rightarrow> Some True
         | SourceNode _ \<Rightarrow> None)"

definition canCastStatically :: "heap \<Rightarrow> ref \<Rightarrow> SourceType \<Rightarrow> ref \<Rightarrow> ref \<Rightarrow> bool" where
  "canCastStatically h srcNode destNode srcType destType =
     (if nodeName (nodes h srcNode) = Class \<or> nodeName (nodes h srcNode) = Interface then
        (case baseList (symbols h srcType) of
           None \<Rightarrow> False
         | Some bases \<Rightarrow>
             list_ex (\<lambda>srcBase. map_option symbolType srcBase = Some destType) bases)
      else False)"

text \<open>
  \<open>isTypeMatch\<close>, \<open>isTypeMatchInternal\<close> and \<open>isFunctionHandlerMatch\<close>, whose
  \<open>for\<close> loop over the parameter positions is \<open>isFunctionHandlerMatch_params\<close> (on the
  pairs of parameter types, the two lists having the same length there). The
  \<open>symbolType\<close> of a deduced type is a \<open>SymbolicType\<close> or a \<open>SymbolicFunction\<close>; on a
  heap where it is a variable, which that type excludes, \<open>isTypeMatchInternal\<close> has no
  result.
\<close>

function (sequential) isTypeMatch :: "nat \<Rightarrow> heap \<Rightarrow> DeducedType option \<Rightarrow> DeducedType option \<Rightarrow> bool option"
and isTypeMatchInternal :: "nat \<Rightarrow> heap \<Rightarrow> DeducedType \<Rightarrow> DeducedType \<Rightarrow> bool option"
and isFunctionHandlerMatch :: "nat \<Rightarrow> heap \<Rightarrow> ref \<Rightarrow> ref \<Rightarrow> bool option"
and isFunctionHandlerMatch_params ::
  "nat \<Rightarrow> heap \<Rightarrow> (DeducedType option \<times> DeducedType option) list \<Rightarrow> bool option" where
  "isTypeMatch fuel h src dest =
     (if src = None \<or> dest = None then Some True
      else
        let resolvedSrc =
              (case templateTranslate (the src) of
                 Some translate \<Rightarrow> resolveTemplateType h translate src
               | None \<Rightarrow> src);
            resolvedDest =
              (case templateTranslate (the dest) of
                 Some translate \<Rightarrow> resolveTemplateType h translate dest
               | None \<Rightarrow> dest)
        in if resolvedSrc = None \<or> resolvedDest = None then Some True
           else isTypeMatchInternal fuel h (the resolvedSrc) (the resolvedDest))"
| "isTypeMatchInternal fuel h src dest =
     (let srcType = symbolType src; destType = symbolType dest in
      if symbolKind (symbols h srcType) = Function then
        isFunctionHandlerMatch fuel h srcType destType
      else if symbolKind (symbols h destType) = Function then Some False
      else if symbolKind (symbols h srcType) \<noteq> Type \<or> symbolKind (symbols h destType) \<noteq> Type
      then None
      else
        let srcNode = sourceType (symbols h srcType);
            destNode = sourceType (symbols h destType)
        in if destNode = SourcePrimitive Any \<or> destNode = SourcePrimitive Auto then Some True
           else
             (case (case srcNode of
                      SourcePrimitive _ \<Rightarrow> canCastFromPrimitiveType h srcType destType
                    | SourceNode srcRef \<Rightarrow>
                        Some (declaredPlace (symbols h srcType) = declaredPlace (symbols h destType)
                              \<or> canCastStatically h srcRef destNode srcType destType)) of
                None \<Rightarrow> None
              | Some True \<Rightarrow> Some True
              | Some False \<Rightarrow>
                  (case destNode of
                     SourcePrimitive _ \<Rightarrow> Some False
                   | SourceNode destRef \<Rightarrow>
                       if nodeName (nodes h destRef) \<noteq> Class then Some False
                       else
                         let destIdentifier = text' (tokens h (identifier' (nodes h destRef)))
                         in canConstructImplicitly fuel h srcType (sourceScope dest)
                              destIdentifier)))"
| "isFunctionHandlerMatch 0 h srcType destType =
     (if symbolKind (symbols h destType) \<noteq> Function then Some False else None)"
| "isFunctionHandlerMatch (Suc fuel) h srcType destType =
     (if symbolKind (symbols h destType) \<noteq> Function then Some False
      else
        (case isTypeMatch fuel h (returnType (symbols h srcType))
                (returnType (symbols h destType)) of
           None \<Rightarrow> None
         | Some False \<Rightarrow> Some False
         | Some True \<Rightarrow>
             if length (parameterTypes (symbols h srcType))
                \<noteq> length (parameterTypes (symbols h destType))
             then Some False
             else isFunctionHandlerMatch_params fuel h
                    (zip (parameterTypes (symbols h srcType))
                         (parameterTypes (symbols h destType)))))"
| "isFunctionHandlerMatch_params fuel h [] = Some True"
| "isFunctionHandlerMatch_params fuel h ((srcParam, destParam) # rest) =
     (case isTypeMatch fuel h srcParam destParam of
        None \<Rightarrow> None
      | Some False \<Rightarrow> Some False
      | Some True \<Rightarrow> isFunctionHandlerMatch_params fuel h rest)"
  by pat_completeness auto

termination
  by (relation "measures [
    (\<lambda>x. case x of Inl (Inl (n, _)) \<Rightarrow> n | Inl (Inr (n, _)) \<Rightarrow> n
            | Inr (Inl (n, _)) \<Rightarrow> n | Inr (Inr (n, _)) \<Rightarrow> n),
    (\<lambda>x. case x of Inl (Inl _) \<Rightarrow> 2 | Inl (Inr _) \<Rightarrow> 1
            | Inr (Inl _) \<Rightarrow> 0 | Inr (Inr _) \<Rightarrow> 3),
    (\<lambda>x. case x of Inr (Inr (_, _, ps)) \<Rightarrow> length ps | _ \<Rightarrow> 0)]") auto

section \<open>Overload resolution (checkFunction.ts)\<close>

text \<open>
  Modelled from the spec: the call nodes \<open>NodeFuncCall\<close> and \<open>NodeConstructCall\<close>
  (nodes.ts, not among the sources) with what the sources read: \<open>nodeRange\<close>; the
  call's \<open>identifier\<close>, or \<open>type.dataType.identifier\<close> of a construction; and, for each
  argument \<open>i\<close>, \<open>argList.argList[i].assign.nodeRange\<close>.
\<close>

datatype CallerNode =
    NodeFuncCall (nodeRange: ParsedRange) (callIdentifier: ref) (argList: "ParsedRange list")
  | NodeConstructCall (nodeRange: ParsedRange) (typeIdentifier: ref)
      (argList: "ParsedRange list")

record FunctionMatchingArgs =
  scope :: ref
  callerNode :: CallerNode
  callerArgs :: "DeducedType option list"
  calleeFunc :: ref
  templateTranslator :: "TemplateTranslation option"

fun getIdentifierInFuncOrConstructor :: "CallerNode \<Rightarrow> ref" where
  "getIdentifierInFuncOrConstructor (NodeFuncCall r ident as) = ident"
| "getIdentifierInFuncOrConstructor (NodeConstructCall r ident as) = ident"

definition pushReferenceOfFuncOrConstructor :: "heap \<Rightarrow> CallerNode \<Rightarrow> ref \<Rightarrow> ref \<Rightarrow> heap" where
  "pushReferenceOfFuncOrConstructor h node sc callee =
     (let callerIdentifier = getIdentifierInFuncOrConstructor node in
      h\<lparr>scopes := (scopes h)(sc := (scopes h sc)
           \<lparr>referencedList := referencedList (scopes h sc)
              @ [\<lparr>declaredSymbol = callee, referencedToken = callerIdentifier\<rparr>]\<rparr>)\<rparr>)"

text \<open>
  The two statements that end \<open>checkFunctionMatch\<close> (after the loop, and after its
  \<open>break\<close>) and \<open>handleTooMuchCallerArgs\<close>: record the reference, return the callee's
  return type.
\<close>

definition referAndReturn ::
  "heap \<Rightarrow> diagnostic \<Rightarrow> FunctionMatchingArgs
     \<Rightarrow> (DeducedType option \<times> heap \<times> diagnostic) option" where
  "referAndReturn h d args =
     Some (returnType (symbols h (calleeFunc args)),
           pushReferenceOfFuncOrConstructor h (callerNode args) (scope args) (calleeFunc args),
           d)"

text \<open>
  The \<open>actualType\<close> and \<open>expectedType\<close> of the loop at index \<open>i\<close>, after the
  \<open>templateTranslator\<close>, when there is one, has been applied to both.
\<close>

definition actualType :: "heap \<Rightarrow> FunctionMatchingArgs \<Rightarrow> nat \<Rightarrow> DeducedType option" where
  "actualType h args i =
     (case templateTranslator args of
        Some translate \<Rightarrow> resolveTemplateType h translate (elemAt (callerArgs args) i)
      | None \<Rightarrow> elemAt (callerArgs args) i)"

definition expectedType :: "heap \<Rightarrow> FunctionMatchingArgs \<Rightarrow> nat \<Rightarrow> DeducedType option" where
  "expectedType h args i =
     (case templateTranslator args of
        Some translate \<Rightarrow>
          resolveTemplateType h translate
            (elemAt (parameterTypes (symbols h (calleeFunc args))) i)
      | None \<Rightarrow> elemAt (parameterTypes (symbols h (calleeFunc args))) i)"

text \<open>The conversion error the loop reports for the argument at index \<open>i\<close>.\<close>

definition conversionError ::
  "heap \<Rightarrow> FunctionMatchingArgs \<Rightarrow> nat \<Rightarrow> LocationInfo \<times> Message" where
  "conversionError h args i =
     (getNodeLocation (argList (callerNode args) ! i),
      CannotConvert
        (text' (tokens h (declaredPlace (symbols h (symbolType (the (actualType h args i)))))))
        (text' (tokens h (declaredPlace (symbols h (symbolType (the (expectedType h args i))))))))"

text \<open>The missing-argument error the loop reports for the parameter \<open>param\<close>.\<close>

definition missingArgumentError ::
  "heap \<Rightarrow> FunctionMatchingArgs \<Rightarrow> NodeParam \<Rightarrow> LocationInfo \<times> Message" where
  "missingArgumentError h args param =
     (getNodeLocation (nodeRange (callerNode args)),
      MissingArgument (map_option (\<lambda>t. text' (tokens h t)) (paramIdentifier param)))"

text \<open>
  \<open>checkFunctionMatch_loop fuel h d args i params\<close> is the \<open>for\<close> loop from index \<open>i\<close> on,
  \<open>params\<close> being the parameters from \<open>i\<close> on, followed by the rest of the function.
  A \<open>return checkFunctionMatch({...args, calleeFunc: calleeFunc.nextOverload})\<close> is a
  recursive call and takes fuel.
\<close>

function (sequential) checkFunctionMatch ::
  "nat \<Rightarrow> heap \<Rightarrow> diagnostic \<Rightarrow> FunctionMatchingArgs
     \<Rightarrow> (DeducedType option \<times> heap \<times> diagnostic) option"
and checkFunctionMatch_loop ::
  "nat \<Rightarrow> heap \<Rightarrow> diagnostic \<Rightarrow> FunctionMatchingArgs \<Rightarrow> nat \<Rightarrow> NodeParam list
     \<Rightarrow> (DeducedType option \<times> heap \<times> diagnostic) option"
and handleTooMuchCallerArgs ::
  "nat \<Rightarrow> heap \<Rightarrow> diagnostic \<Rightarrow> FunctionMatchingArgs
     \<Rightarrow> (DeducedType option \<times> heap \<times> diagnostic) option" where
  "checkFunctionMatch fuel h d args =
     (let calleeParams = paramList (sourceNode (symbols h (calleeFunc args))) in
      if length (callerArgs args) > length calleeParams then
        handleTooMuchCallerArgs fuel h d args
      else checkFunctionMatch_loop fuel h d args 0 calleeParams)"
| "checkFunctionMatch_loop fuel h d args i [] = referAndReturn h d args"
| "checkFunctionMatch_loop fuel h d args i (param # rest) =
     (if i \<ge> length (callerArgs args) \<and> defaultExpr param = None then
        (case nextOverload (symbols h (calleeFunc args)) of
           Some nxt \<Rightarrow>
             (case fuel of
                0 \<Rightarrow> None
              | Suc fuel' \<Rightarrow> checkFunctionMatch fuel' h d (args\<lparr>calleeFunc := nxt\<rparr>))
         | None \<Rightarrow> referAndReturn h (d @ [missingArgumentError h args param]) args)
      else
        let actual = actualType h args i;
            expected = expectedType h args i
        in if actual = None \<or> expected = None then
             checkFunctionMatch_loop fuel h d args (Suc i) rest
           else
             (case isTypeMatch fuel h actual expected of
                None \<Rightarrow> None
              | Some True \<Rightarrow> checkFunctionMatch_loop fuel h d args (Suc i) rest
              | Some False \<Rightarrow>
                  (case nextOverload (symbols h (calleeFunc args)) of
                     Some nxt \<Rightarrow>
                       (case fuel of
                          0 \<Rightarrow> None
                        | Suc fuel' \<Rightarrow>
                            checkFunctionMatch fuel' h d (args\<lparr>calleeFunc := nxt\<rparr>))
                   | None \<Rightarrow>
                       if i < length (argList (callerNode args)) then
                         checkFunctionMatch_loop fuel h (d @ [conversionError h args i])
                           args (Suc i) rest
                       else None)))"
| "handleTooMuchCallerArgs fuel h d args =
     (case nextOverload (symbols h (calleeFunc args)) of
        Some nxt \<Rightarrow>
          (case fuel of
             0 \<Rightarrow> None
           | Suc fuel' \<Rightarrow> checkFunctionMatch fuel' h d (args\<lparr>calleeFunc := nxt\<rparr>))
      | None \<Rightarrow>
          referAndReturn h
            (d @ [(getNodeLocation (nodeRange (callerNode args)),
                   TooManyArguments
                     (length (paramList (sourceNode (symbols h (calleeFunc args)))))
                     (length (callerArgs args)))])
            args)"
  by pat_completeness auto

termination
  by (relation "measures [
    (\<lambda>x. case x of Inl (n, _) \<Rightarrow> n | Inr (Inl (n, _)) \<Rightarrow> n | Inr (Inr (n, _)) \<Rightarrow> n),
    (\<lambda>x. case x of Inl _ \<Rightarrow> 1 | Inr (Inl _) \<Rightarrow> 0 | Inr (Inr _) \<Rightarrow> 0),
    (\<lambda>x. case x of Inr (Inl (_, _, _, _, _, ps)) \<Rightarrow> length ps | _ \<Rightarrow> 0)]") auto

section \<open>Overload chains\<close>

text \<open>
  \<open>overloadChain ss c cs\<close>: following \<open>nextOverload\<close> from the symbol \<open>c\<close> in the store
  \<open>ss\<close> visits exactly the symbols \<open>cs\<close>, in this order, and the last of them has no
  \<open>nextOverload\<close>: the chain is finite and \<open>last cs\<close> is its tail.
\<close>

fun overloadChain :: "(ref \<Rightarrow> SymbolicObject) \<Rightarrow> ref \<Rightarrow> ref list \<Rightarrow> bool" where
  "overloadChain ss c [] = False"
| "overloadChain ss c [x] = (x = c \<and> nextOverload (ss c) = None)"
| "overloadChain ss c (x # y # rest) =
     (x = c \<and> nextOverload (ss c) = Some y \<and> overloadChain ss y (y # rest))"

section \<open>Notions used to state the properties\<close>

text \<open>
  The check of the loop at index \<open>i\<close> returns: either side is absent, or \<open>isTypeMatch\<close>
  returns a boolean on the two types with the given fuel.
\<close>

definition typeCheckReturns :: "nat \<Rightarrow> heap \<Rightarrow> FunctionMatchingArgs \<Rightarrow> nat \<Rightarrow> bool" where
  "typeCheckReturns fuel h args i =
     (actualType h args i = None \<or> expectedType h args i = None
      \<or> isTypeMatch fuel h (actualType h args i) (expectedType h args i) \<noteq> None)"

text \<open>The argument at index \<open>i\<close> is accepted by the loop: absent on a side, or a match.\<close>

definition accepted :: "nat \<Rightarrow> heap \<Rightarrow> FunctionMatchingArgs \<Rightarrow> nat \<Rightarrow> bool" where
  "accepted fuel h args i =
     (actualType h args i = None \<or> expectedType h args i = None
      \<or> isTypeMatch fuel h (actualType h args i) (expectedType h args i) = Some True)"

text \<open>The argument at index \<open>i\<close> fails \<open>isTypeMatch\<close> against the callee's parameter.\<close>

definition mismatched :: "nat \<Rightarrow> heap \<Rightarrow> FunctionMatchingArgs \<Rightarrow> nat \<Rightarrow> bool" where
  "mismatched fuel h args i =
     (actualType h args i \<noteq> None \<and> expectedType h args i \<noteq> None
      \<and> isTypeMatch fuel h (actualType h args i) (expectedType h args i) = Some False)"

text \<open>
  The first parameter, among \<open>params\<close> (the parameters from index \<open>i\<close> on), that lies
  beyond the supplied arguments and has no default expression.
\<close>

fun firstMissing :: "FunctionMatchingArgs \<Rightarrow> nat \<Rightarrow> NodeParam list \<Rightarrow> NodeParam option" where
  "firstMissing args i [] = None"
| "firstMissing args i (param # rest) =
     (if i \<ge> length (callerArgs args) \<and> defaultExpr param = None then Some param
      else firstMissing args (Suc i) rest)"

definition isMissingArgument :: "LocationInfo \<times> Message \<Rightarrow> bool" where
  "isMissingArgument e = (case snd e of MissingArgument _ \<Rightarrow> True | _ \<Rightarrow> False)"

definition isCannotConvert :: "LocationInfo \<times> Message \<Rightarrow> bool" where
  "isCannotConvert e = (case snd e of CannotConvert _ _ \<Rightarrow> True | _ \<Rightarrow> False)"

text \<open>
  A deduced type resolves to itself through its own \<open>templateTranslate\<close>: it has none,
  or its declaration is not a key of it.
\<close>

definition selfResolved :: "heap \<Rightarrow> DeducedType \<Rightarrow> bool" where
  "selfResolved h t =
     (case templateTranslate t of
        None \<Rightarrow> True
      | Some translate \<Rightarrow> map_of translate (declaredPlace (symbols h (symbolType t))) = None)"

text \<open>
  The overload \<open>f\<close> has exactly one parameter, whose type is a type symbol of source type
  \<open>srcType\<close>: the test of \<open>canConstructBy\<close>.
\<close>

definition constructsFrom :: "heap \<Rightarrow> SourceType \<Rightarrow> ref \<Rightarrow> bool" where
  "constructsFrom h srcType f =
     (case parameterTypes (symbols h f) of
        [Some paramType] \<Rightarrow>
          symbolKind (symbols h (symbolType paramType)) = Type
          \<and> sourceType (symbols h (symbolType paramType)) = srcType
      | _ \<Rightarrow> False)"

text \<open>
  The part of \<open>isTypeMatchInternal\<close> below its two casts, the constructor fallback:
  incompatible unless the destination is a class declaration, and then
  \<open>canConstructImplicitly\<close>.
\<close>

definition constructorFallback :: "nat \<Rightarrow> heap \<Rightarrow> DeducedType \<Rightarrow> DeducedType \<Rightarrow> bool option" where
  "constructorFallback fuel h src dest =
     (case sourceType (symbols h (symbolType dest)) of
        SourcePrimitive _ \<Rightarrow> Some False
      | SourceNode destRef \<Rightarrow>
          if nodeName (nodes h destRef) \<noteq> Class then Some False
          else canConstructImplicitly fuel h (symbolType src) (sourceScope dest)
                 (text' (tokens h (identifier' (nodes h destRef)))))"

text \<open>
  \<open>isTypeMatch\<close> on \<open>src\<close> and \<open>dest\<close> reaches the constructor fallback: both resolve to
  themselves and denote type symbols, and the cast that applies to the source (from a
  primitive type; or the identity and the base list, for a class or an enum) fails.
\<close>

definition reachesFallback :: "heap \<Rightarrow> DeducedType \<Rightarrow> DeducedType \<Rightarrow> bool" where
  "reachesFallback h src dest =
     (selfResolved h src \<and> selfResolved h dest
      \<and> symbolKind (symbols h (symbolType src)) = Type
      \<and> symbolKind (symbols h (symbolType dest)) = Type
      \<and> (case sourceType (symbols h (symbolType src)) of
            SourcePrimitive _ \<Rightarrow>
              canCastFromPrimitiveType h (symbolType src) (symbolType dest) = Some False
          | SourceNode srcRef \<Rightarrow>
              declaredPlace (symbols h (symbolType src)) \<noteq> declaredPlace (symbols h (symbolType dest))
              \<and> \<not> canCastStatically h srcRef (sourceType (symbols h (symbolType dest)))
                      (symbolType src) (symbolType dest)))"

text \<open>
  The heap after the assignment \<open>cursor.nextOverload = symbol\<close>.
\<close>

definition assignNextOverload :: "heap \<Rightarrow> ref \<Rightarrow> ref \<Rightarrow> heap" where
  "assignNextOverload h cursor symbol =
     h\<lparr>symbols := (symbols h)(cursor := set_nextOverload (Some symbol) (symbols h cursor))\<rparr>"

text \<open>
  The result \<open>res\<close> of a call of \<open>checkFunctionMatch\<close> with the diagnostics \<open>d\<close> and
  the arguments \<open>args\<close> has settled on an overload \<open>g\<close> reached from the callee along
  \<open>nextOverload\<close>: it holds the return type of \<open>g\<close>, the heap with the reference to
  \<open>g\<close> recorded, and the diagnostics \<open>d\<close> with more appended.
\<close>

definition settledOn ::
  "heap \<Rightarrow> diagnostic \<Rightarrow> FunctionMatchingArgs \<Rightarrow> (DeducedType option \<times> heap \<times> diagnostic) \<Rightarrow> bool" where
  "settledOn h d args res =
     (\<exists>g ds. (\<lambda>a b. nextOverload (symbols h a) = Some b)\<^sup>*\<^sup>* (calleeFunc args) g
        \<and> res = (returnType (symbols h g),
                 pushReferenceOfFuncOrConstructor h (callerNode args) (scope args) g,
                 d @ ds))"

section \<open>An example program\<close>

text \<open>
  The builtin types \<open>int\<close>, \<open>string\<close>, \<open>bool\<close> and \<open>?\<close>; a class \<open>P\<close> with the
  constructor \<open>P(int x)\<close> and a class \<open>Q\<close> with the constructor \<open>Q(string x)\<close>; classes
  \<open>A\<close>, \<open>B : A\<close> and \<open>C : B\<close>; three functions \<open>f(a)\<close>, \<open>f(a, b)\<close> and
  \<open>f(a, b, c = ...)\<close>, not yet inserted in a scope; variables \<open>v\<close> and \<open>v\<close>; and a
  function \<open>g(a, b, c, d = ...)\<close>.
\<close>

definition exampleTokens :: "ref \<Rightarrow> ParsingToken" where
  "exampleTokens =
     (\<lambda>r. ParsingToken [] (LocationInfo r))
     (0 := ParsingToken ''int'' (LocationInfo 0),
      1 := ParsingToken ''string'' (LocationInfo 1),
      2 := ParsingToken ''bool'' (LocationInfo 2),
      3 := ParsingToken ''?'' (LocationInfo 3),
      4 := ParsingToken ''P'' (LocationInfo 4),
      5 := ParsingToken ''Q'' (LocationInfo 5),
      6 := ParsingToken ''A'' (LocationInfo 6),
      7 := ParsingToken ''B'' (LocationInfo 7),
      8 := ParsingToken ''C'' (LocationInfo 8),
      9 := ParsingToken ''f'' (LocationInfo 9),
      10 := ParsingToken ''f'' (LocationInfo 10),
      11 := ParsingToken ''f'' (LocationInfo 11),
      12 := ParsingToken ''v'' (LocationInfo 12),
      13 := ParsingToken ''v'' (LocationInfo 13),
      14 := ParsingToken ''P'' (LocationInfo 14),
      15 := ParsingToken ''Q'' (LocationInfo 15),
      16 := ParsingToken ''g'' (LocationInfo 16),
      17 := ParsingToken ''f'' (LocationInfo 17),
      18 := ParsingToken ''g'' (LocationInfo 18),
      19 := ParsingToken ''a'' (LocationInfo 19),
      20 := ParsingToken ''b'' (LocationInfo 20),
      21 := ParsingToken ''c'' (LocationInfo 21),
      22 := ParsingToken ''d'' (LocationInfo 22))"

definition exampleNodes :: "ref \<Rightarrow> NodesBase" where
  "exampleNodes =
     (\<lambda>r. NodesBase If 0)
     (0 := NodesBase Class 4,
      1 := NodesBase Class 5,
      2 := NodesBase Class 6,
      3 := NodesBase Class 7,
      4 := NodesBase Class 8)"

definition intType :: DeducedType where
  "intType = DeducedType 0 None None"

definition stringType :: DeducedType where
  "stringType = DeducedType 1 None None"

definition boolType :: DeducedType where
  "boolType = DeducedType 2 None None"

definition anyType :: DeducedType where
  "anyType = DeducedType 3 None None"

definition typeP :: DeducedType where
  "typeP = DeducedType 4 (Some 0) None"

definition typeQ :: DeducedType where
  "typeQ = DeducedType 5 (Some 0) None"

definition typeA :: DeducedType where
  "typeA = DeducedType 6 (Some 0) None"

definition typeB :: DeducedType where
  "typeB = DeducedType 7 (Some 0) None"

definition typeC :: DeducedType where
  "typeC = DeducedType 8 (Some 0) None"

definition exampleSymbols :: "ref \<Rightarrow> SymbolicObject" where
  "exampleSymbols =
     (\<lambda>r. SymbolicVariable r None)
     (0 := SymbolicType 0 (SourcePrimitive Number) None None,
      1 := SymbolicType 1 (SourcePrimitive String) None None,
      2 := SymbolicType 2 (SourcePrimitive Bool) None None,
      3 := SymbolicType 3 (SourcePrimitive Any) None None,
      4 := SymbolicType 4 (SourceNode 0) None None,
      5 := SymbolicType 5 (SourceNode 1) None None,
      6 := SymbolicType 6 (SourceNode 2) None None,
      7 := SymbolicType 7 (SourceNode 3) None (Some [Some typeA]),
      8 := SymbolicType 8 (SourceNode 4) None (Some [Some typeB]),
      9 := SymbolicFunction 9 (NodeFunc [NodeParam (Some 19) None])
             (Some intType) [Some intType] None,
      10 := SymbolicFunction 10 (NodeFunc [NodeParam (Some 19) None, NodeParam (Some 20) None])
              (Some boolType) [Some intType, Some stringType] None,
      11 := SymbolicFunction 11
              (NodeFunc [NodeParam (Some 19) None, NodeParam (Some 20) None,
                         NodeParam (Some 21) (Some 0)])
              (Some stringType) [Some intType, Some stringType, Some boolType] None,
      12 := SymbolicVariable 12 (Some intType),
      13 := SymbolicVariable 13 (Some boolType),
      14 := SymbolicFunction 14 (NodeFunc [NodeParam (Some 19) None]) None [Some intType] None,
      15 := SymbolicFunction 15 (NodeFunc [NodeParam (Some 19) None]) None
              [Some stringType] None,
      16 := SymbolicFunction 16
              (NodeFunc [NodeParam (Some 19) None, NodeParam (Some 20) None,
                         NodeParam (Some 21) None, NodeParam (Some 22) (Some 0)])
              (Some boolType) [Some intType, Some intType, Some intType, Some intType] None)"

definition exampleScopes :: "ref \<Rightarrow> SymbolScope" where
  "exampleScopes =
     (\<lambda>r. \<lparr>ownerNode = None, parentScope = None, childScopes = Map.empty,
            symbolMap = Map.empty, referencedList = []\<rparr>)
     (0 := \<lparr>ownerNode = None, parentScope = None,
            childScopes = [''P'' \<mapsto> 1, ''Q'' \<mapsto> 2],
            symbolMap = [''P'' \<mapsto> 4, ''Q'' \<mapsto> 5, ''A'' \<mapsto> 6, ''B'' \<mapsto> 7, ''C'' \<mapsto> 8,
                         ''v'' \<mapsto> 12, ''g'' \<mapsto> 16],
            referencedList = []\<rparr>,
      1 := \<lparr>ownerNode = Some 0, parentScope = Some 0, childScopes = Map.empty,
            symbolMap = [''P'' \<mapsto> 14], referencedList = []\<rparr>,
      2 := \<lparr>ownerNode = Some 1, parentScope = Some 0, childScopes = Map.empty,
            symbolMap = [''Q'' \<mapsto> 15], referencedList = []\<rparr>)"

definition exampleHeap :: heap where
  "exampleHeap =
     \<lparr>tokens = exampleTokens, nodes = exampleNodes, symbols = exampleSymbols,
      scopes = exampleScopes\<rparr>"

text \<open>A call at the token 18 with the given argument types, checked in the scope 0.\<close>

definition exampleCall :: "DeducedType option list \<Rightarrow> ref \<Rightarrow> FunctionMatchingArgs" where
  "exampleCall types callee =
     \<lparr>scope = 0,
      callerNode = NodeFuncCall (ParsedRange 100) 18 (map ParsedRange [101 ..< 101 + length types]),
      callerArgs = types, calleeFunc = callee, templateTranslator = None\<rparr>"

section \<open>Properties of overload chains and of insertSymbolicObject\<close>

lemmas example_defs = exampleHeap_def exampleSymbols_def exampleTokens_def exampleNodes_def
  exampleScopes_def intType_def stringType_def boolType_def anyType_def typeP_def typeQ_def
  typeA_def typeB_def typeC_def

lemma exampleHeap_fields [simp]:
  "tokens exampleHeap = exampleTokens" "nodes exampleHeap = exampleNodes"
  "symbols exampleHeap = exampleSymbols" "scopes exampleHeap = exampleScopes"
  by (simp_all add: exampleHeap_def)

lemma overloadChain_hd: "overloadChain ss c cs \<Longrightarrow> cs \<noteq> [] \<and> hd cs = c"
  by (induction ss c cs rule: overloadChain.induct) auto

lemma appendOverload_chain:
  "overloadChain ss c cs \<Longrightarrow>
   appendOverload ss c s = Some (ss(last cs := set_nextOverload (Some s) (ss (last cs))))"
proof (induction ss c cs rule: overloadChain.induct)
  case (1 ss c)
  then show ?case by simp
next
  case (2 ss c x)
  then show ?case by (subst appendOverload.simps) simp
next
  case (3 ss c x y rest)
  from "3.prems" have a: "x = c" "nextOverload (ss c) = Some y" "overloadChain ss y (y # rest)"
    by simp_all
  have l: "last (x # y # rest) = last (y # rest)" by simp
  have "appendOverload ss c s = appendOverload ss y s"
    by (subst appendOverload.simps) (simp add: a)
  with "3.IH"[OF a(3)] show ?case unfolding l by simp
qed

lemma appendOverload_returns:
  "appendOverload ss c s = Some ss' \<Longrightarrow>
   \<exists>cs. overloadChain ss c cs
        \<and> ss' = ss(last cs := set_nextOverload (Some s) (ss (last cs)))"
proof (induction rule: appendOverload.raw_induct[rotated 1, consumes 1])
  case (1 f ss c s ss')
  show ?case
  proof (cases "nextOverload (ss c)")
    case None
    with 1(2) have "ss' = ss(c := set_nextOverload (Some s) (ss c))" by simp
    with None have "overloadChain ss c [c] \<and> ss' = ss(last [c] := set_nextOverload (Some s) (ss (last [c])))"
      by simp
    then show ?thesis by blast
  next
    case (Some nxt)
    with 1(2) have "f ss nxt s = Some ss'" by simp
    from 1(1)[OF this] obtain cs where cs: "overloadChain ss nxt cs"
      "ss' = ss(last cs := set_nextOverload (Some s) (ss (last cs)))" by blast
    from cs(1) obtain rest where r: "cs = nxt # rest"
      using overloadChain_hd[OF cs(1)] by (cases cs) auto
    with cs Some have "overloadChain ss c (c # cs) \<and> ss' = ss(last (c # cs) := set_nextOverload (Some s) (ss (last (c # cs))))"
      by simp
    then show ?thesis by blast
  qed
qed

lemma overloadChain_unique:
  "overloadChain ss c xs \<Longrightarrow> overloadChain ss c ys \<Longrightarrow> xs = ys"
proof (induction ss c xs arbitrary: ys rule: overloadChain.induct)
  case (1 ss c)
  then show ?case by simp
next
  case (2 ss c x)
  then show ?case by (cases "(ss, c, ys)" rule: overloadChain.cases) auto
next
  case (3 ss c x y rest)
  then show ?case
    by (cases "(ss, c, ys)" rule: overloadChain.cases) auto
qed

lemma overloadChain_suffix:
  "overloadChain ss c (pre @ x # post) \<Longrightarrow> overloadChain ss x (x # post)"
proof (induction pre arbitrary: c)
  case Nil
  then show ?case using overloadChain_hd[of ss c "x # post"] by simp
next
  case (Cons a pre)
  then show ?case by (cases pre) auto
qed

lemma overloadChain_distinct: "overloadChain ss c cs \<Longrightarrow> distinct cs"
proof (induction ss c cs rule: overloadChain.induct)
  case (1 ss c)
  then show ?case by simp
next
  case (2 ss c x)
  then show ?case by simp
next
  case (3 ss c x y rest)
  then have d: "distinct (y # rest)" and c: "overloadChain ss x (x # y # rest)"
    and t: "overloadChain ss y (y # rest)" by simp_all
  have "x \<notin> set (y # rest)"
  proof
    assume "x \<in> set (y # rest)"
    then obtain pre post where s: "y # rest = pre @ x # post" by (meson split_list)
    with t have "overloadChain ss y (pre @ x # post)" by simp
    then have "overloadChain ss x (x # post)" by (rule overloadChain_suffix)
    with c have "x # y # rest = x # post" by (rule overloadChain_unique)
    then have "post = y # rest" by simp
    with s have "length (y # rest) = length (pre @ x # y # rest)" by simp
    then show False by simp
  qed
  with d show ?case by simp
qed

lemma overloadChain_update_last:
  "overloadChain ss c cs \<Longrightarrow> symbolKind (ss (last cs)) = Function \<Longrightarrow> s \<notin> set cs \<Longrightarrow>
   nextOverload (ss s) = None \<Longrightarrow>
   overloadChain (ss(last cs := set_nextOverload (Some s) (ss (last cs)))) c (cs @ [s])"
proof (induction ss c cs rule: overloadChain.induct)
  case (1 ss c)
  then show ?case by simp
next
  case (2 ss c x)
  then show ?case by (cases "ss c") auto
next
  case (3 ss c x y rest)
  from overloadChain_distinct[OF "3.prems"(1)] have "x \<noteq> last (y # rest)"
    by (metis distinct.simps(2) last_in_set list.distinct(1))
  with 3 show ?case by (cases rest) auto
qed

lemma insertSymbolicObject_absent:
  "m (text' (tokens h (declaredPlace (symbols h symbol)))) = None \<Longrightarrow>
   insertSymbolicObject h d m symbol =
     Some (True, m(text' (tokens h (declaredPlace (symbols h symbol))) \<mapsto> symbol), h, d)"
  by (simp add: insertSymbolicObject_def)

lemma insertSymbolicObject_hit:
  "m (text' (tokens h (declaredPlace (symbols h symbol)))) = Some hit \<Longrightarrow>
   insertSymbolicObject h d m symbol =
     (if symbolKind (symbols h symbol) = Function \<and> symbolKind (symbols h hit) = Function
      then map_option (\<lambda>ss. (True, m, h\<lparr>symbols := ss\<rparr>, d))
             (appendOverload (symbols h) hit symbol)
      else Some (False, m, h,
                 d @ [(location (tokens h (declaredPlace (symbols h symbol))),
                       AlreadyDefined (text' (tokens h (declaredPlace (symbols h symbol)))))]))"
  by (simp add: insertSymbolicObject_def)

text \<open>
  C9. When the identifier of the new symbol is already bound in the map:
  if the new symbol or the existing entry is not a Function (in particular when the new
  symbol is a Variable), \<open>insertSymbolicObject\<close> adds exactly one diagnostic, the
  duplicate-definition error at the new symbol's declared location, changes nothing
  else and returns false; if both are Functions and the existing overload chain is
  finite, it adds no diagnostic, sets \<open>nextOverload\<close> of the chain's tail to the new
  symbol and returns true, so that the chain from the existing entry is the old chain
  followed by the new symbol (for a new symbol that is not yet in the chain and has no
  \<open>nextOverload\<close> of its own).
\<close>

theorem insertSymbolicObject_bound:
  assumes "m (text' (tokens h (declaredPlace (symbols h symbol)))) = Some hit"
  shows "(symbolKind (symbols h symbol) \<noteq> Function \<or> symbolKind (symbols h hit) \<noteq> Function \<longrightarrow>
            insertSymbolicObject h d m symbol =
              Some (False, m, h,
                    d @ [(location (tokens h (declaredPlace (symbols h symbol))),
                          AlreadyDefined (text' (tokens h (declaredPlace (symbols h symbol)))))]))
       \<and> (symbolKind (symbols h symbol) = Function \<and> symbolKind (symbols h hit) = Function
            \<and> overloadChain (symbols h) hit cs \<longrightarrow>
            insertSymbolicObject h d m symbol =
              Some (True, m,
                    h\<lparr>symbols := (symbols h)
                         (last cs := set_nextOverload (Some symbol) (symbols h (last cs)))\<rparr>,
                    d)
            \<and> nextOverload (symbols h (last cs)) = None
            \<and> (symbolKind (symbols h (last cs)) = Function \<and> symbol \<notin> set cs
                 \<and> nextOverload (symbols h symbol) = None \<longrightarrow>
                 overloadChain
                   ((symbols h)(last cs := set_nextOverload (Some symbol) (symbols h (last cs))))
                   hit (cs @ [symbol])))"
proof (intro conjI impI)
  assume "symbolKind (symbols h symbol) \<noteq> Function \<or> symbolKind (symbols h hit) \<noteq> Function"
  then show "insertSymbolicObject h d m symbol =
              Some (False, m, h,
                    d @ [(location (tokens h (declaredPlace (symbols h symbol))),
                          AlreadyDefined (text' (tokens h (declaredPlace (symbols h symbol)))))])"
    unfolding insertSymbolicObject_hit[where m = m and h = h and symbol = symbol, OF assms] by auto
next
  assume a: "symbolKind (symbols h symbol) = Function \<and> symbolKind (symbols h hit) = Function
            \<and> overloadChain (symbols h) hit cs"
  with appendOverload_chain[of "symbols h" hit cs symbol]
  show "insertSymbolicObject h d m symbol =
              Some (True, m,
                    h\<lparr>symbols := (symbols h)
                         (last cs := set_nextOverload (Some symbol) (symbols h (last cs)))\<rparr>,
                    d)"
    unfolding insertSymbolicObject_hit[where m = m and h = h and symbol = symbol, OF assms] by simp
  from a have c: "overloadChain (symbols h) hit cs" by simp
  from c obtain pre where "cs = pre @ [last cs]"
    using overloadChain_hd[OF c] by (metis append_butlast_last_id)
  with c have "overloadChain (symbols h) hit (pre @ last cs # [])" by simp
  then have "overloadChain (symbols h) (last cs) [last cs]" by (rule overloadChain_suffix)
  then show "nextOverload (symbols h (last cs)) = None" by simp
  assume "symbolKind (symbols h (last cs)) = Function \<and> symbol \<notin> set cs
                 \<and> nextOverload (symbols h symbol) = None"
  with c show "overloadChain
                   ((symbols h)(last cs := set_nextOverload (Some symbol) (symbols h (last cs))))
                   hit (cs @ [symbol])"
    by (simp add: overloadChain_update_last)
qed

theorem insertSymbolicObject_bound_witness:
  "insertSymbolicObject exampleHeap [] [''v'' \<mapsto> 12] 13
     = Some (False, [''v'' \<mapsto> 12], exampleHeap, [(LocationInfo 13, AlreadyDefined ''v'')])
   \<and> insertSymbolicObject exampleHeap [] [''f'' \<mapsto> 9] 10
     = Some (True, [''f'' \<mapsto> 9],
             exampleHeap\<lparr>symbols := exampleSymbols
               (9 := set_nextOverload (Some 10) (exampleSymbols 9))\<rparr>, [])
   \<and> overloadChain (exampleSymbols(9 := set_nextOverload (Some 10) (exampleSymbols 9))) 9 [9, 10]"
proof -
  have a: "[''v'' \<mapsto> 12] (text' (tokens exampleHeap (declaredPlace (symbols exampleHeap 13)))) = Some (12::nat)"
    by (simp add: example_defs)
  have b: "symbolKind (symbols exampleHeap 13) \<noteq> Function \<or> symbolKind (symbols exampleHeap 12) \<noteq> Function"
    by (simp add: example_defs)
  have c: "[''f'' \<mapsto> 9] (text' (tokens exampleHeap (declaredPlace (symbols exampleHeap 10)))) = Some (9::nat)"
    by (simp add: example_defs)
  have e: "symbolKind (symbols exampleHeap 10) = Function \<and> symbolKind (symbols exampleHeap 9) = Function
            \<and> overloadChain (symbols exampleHeap) 9 [9]"
    by (simp add: example_defs)
  have f: "symbolKind (symbols exampleHeap (last [9])) = Function \<and> 10 \<notin> set [9::nat]
                 \<and> nextOverload (symbols exampleHeap 10) = None"
    by (simp add: example_defs)
  from insertSymbolicObject_bound[where m = "[''v'' \<mapsto> 12]" and h = exampleHeap
         and symbol = 13 and hit = 12 and cs = "[]" and d = "[]", OF a] b
       insertSymbolicObject_bound[where m = "[''f'' \<mapsto> 9]" and h = exampleHeap
         and symbol = 10 and hit = 9 and cs = "[9]" and d = "[]", OF c] e f
  show ?thesis by (simp add: example_defs)
qed

text \<open>
  C10. Whenever \<open>insertSymbolicObject\<close> returns false, the map and the heap are the
  ones it was given, and the identifier is bound in the map (to the symbol it was bound
  to before). When it returns true on an identifier that was already bound, the map is
  unchanged too and no diagnostic is added: the heap differs only at the tail of the
  existing entry's overload chain, whose \<open>nextOverload\<close>, absent before, is set to the
  new symbol.
\<close>

theorem insertSymbolicObject_frame:
  "(insertSymbolicObject h d m symbol = Some (False, m', h', d') \<longrightarrow>
      m' = m \<and> h' = h \<and> m (text' (tokens h (declaredPlace (symbols h symbol)))) \<noteq> None)
   \<and> (m (text' (tokens h (declaredPlace (symbols h symbol)))) = Some hit
       \<and> insertSymbolicObject h d m symbol = Some (True, m', h', d') \<longrightarrow>
         m' = m \<and> d' = d
         \<and> (\<exists>tail. nextOverload (symbols h tail) = None
               \<and> h' = h\<lparr>symbols := (symbols h)
                          (tail := set_nextOverload (Some symbol) (symbols h tail))\<rparr>
               \<and> (\<exists>cs. overloadChain (symbols h) hit cs \<and> tail = last cs)))"
proof (rule conjI; rule impI)
  let ?ident = "text' (tokens h (declaredPlace (symbols h symbol)))"
  assume r: "insertSymbolicObject h d m symbol = Some (False, m', h', d')"
  show "m' = m \<and> h' = h \<and> m ?ident \<noteq> None"
  proof (cases "m ?ident")
    case None
    with r show ?thesis by (simp add: insertSymbolicObject_absent)
  next
    case (Some hit)
    show ?thesis
    proof (cases "symbolKind (symbols h symbol) = Function \<and> symbolKind (symbols h hit) = Function")
      case True
      with r show ?thesis unfolding insertSymbolicObject_hit[where m = m and h = h and symbol = symbol, OF Some] by auto
    next
      case False
      with r Some show ?thesis unfolding insertSymbolicObject_hit[where m = m and h = h and symbol = symbol, OF Some] by auto
    qed
  qed
next
  let ?ident = "text' (tokens h (declaredPlace (symbols h symbol)))"
  assume a: "m ?ident = Some hit
       \<and> insertSymbolicObject h d m symbol = Some (True, m', h', d')"
  then have hit: "m ?ident = Some hit"
    and res: "insertSymbolicObject h d m symbol = Some (True, m', h', d')" by simp_all
  from res have k: "symbolKind (symbols h symbol) = Function \<and> symbolKind (symbols h hit) = Function"
    unfolding insertSymbolicObject_hit[where m = m and h = h and symbol = symbol, OF hit] by (simp split: if_splits)
  with res have "map_option (\<lambda>ss. (True, m, h\<lparr>symbols := ss\<rparr>, d))
                 (appendOverload (symbols h) hit symbol) = Some (True, m', h', d')"
    unfolding insertSymbolicObject_hit[where m = m and h = h and symbol = symbol, OF hit] by simp
  then obtain ss where ss: "appendOverload (symbols h) hit symbol = Some ss"
    and r: "m' = m" "d' = d" "h' = h\<lparr>symbols := ss\<rparr>"
    by (cases "appendOverload (symbols h) hit symbol") simp_all
  from appendOverload_returns[OF ss] obtain cs where cs: "overloadChain (symbols h) hit cs"
    "ss = (symbols h)(last cs := set_nextOverload (Some symbol) (symbols h (last cs)))" by blast
  from cs(1) obtain pre where "cs = pre @ [last cs]"
    using overloadChain_hd[OF cs(1)] by (metis append_butlast_last_id)
  with cs(1) have "overloadChain (symbols h) hit (pre @ last cs # [])" by simp
  then have "overloadChain (symbols h) (last cs) [last cs]" by (rule overloadChain_suffix)
  then have n: "nextOverload (symbols h (last cs)) = None" by simp
  from r show "m' = m \<and> d' = d
         \<and> (\<exists>tail. nextOverload (symbols h tail) = None
               \<and> h' = h\<lparr>symbols := (symbols h)
                          (tail := set_nextOverload (Some symbol) (symbols h tail))\<rparr>
               \<and> (\<exists>cs. overloadChain (symbols h) hit cs \<and> tail = last cs))"
    using cs n by blast
qed

theorem insertSymbolicObject_frame_witness:
  "insertSymbolicObject exampleHeap [] [''v'' \<mapsto> 12] 13
     = Some (False, [''v'' \<mapsto> 12], exampleHeap, [(LocationInfo 13, AlreadyDefined ''v'')])
   \<and> [''v'' \<mapsto> (12::nat)] ''v'' \<noteq> None
   \<and> insertSymbolicObject exampleHeap [] [''f'' \<mapsto> 9] 10
     = Some (True, [''f'' \<mapsto> 9],
             exampleHeap\<lparr>symbols := exampleSymbols
               (9 := set_nextOverload (Some 10) (exampleSymbols 9))\<rparr>, [])
   \<and> (\<exists>tail. nextOverload (symbols exampleHeap tail) = None
         \<and> exampleHeap\<lparr>symbols := exampleSymbols
               (9 := set_nextOverload (Some 10) (exampleSymbols 9))\<rparr>
             = exampleHeap\<lparr>symbols := (symbols exampleHeap)
                 (tail := set_nextOverload (Some 10) (symbols exampleHeap tail))\<rparr>
         \<and> (\<exists>cs. overloadChain (symbols exampleHeap) 9 cs \<and> tail = last cs))"
proof -
  have v: "[''v'' \<mapsto> 12] (text' (tokens exampleHeap (declaredPlace (symbols exampleHeap 13))))
             = Some (12::nat)"
    by (simp add: example_defs)
  have a: "insertSymbolicObject exampleHeap [] [''v'' \<mapsto> 12] 13
     = Some (False, [''v'' \<mapsto> 12], exampleHeap, [(LocationInfo 13, AlreadyDefined ''v'')])"
    unfolding insertSymbolicObject_hit[where m = "[''v'' \<mapsto> 12]" and h = exampleHeap
      and symbol = 13, OF v]
    by (simp add: exampleSymbols_def exampleTokens_def)
  have b: "[''f'' \<mapsto> 9] (text' (tokens exampleHeap (declaredPlace (symbols exampleHeap 10))))
             = Some (9::nat)"
    by (simp add: example_defs)
  have c: "insertSymbolicObject exampleHeap [] [''f'' \<mapsto> 9] 10
     = Some (True, [''f'' \<mapsto> 9],
             exampleHeap\<lparr>symbols := exampleSymbols
               (9 := set_nextOverload (Some 10) (exampleSymbols 9))\<rparr>, [])"
    unfolding insertSymbolicObject_hit[where m = "[''f'' \<mapsto> 9]" and h = exampleHeap
      and symbol = 10, OF b]
    by (simp add: appendOverload.simps exampleSymbols_def)
  from insertSymbolicObject_frame[where h = exampleHeap and d = "[]" and m = "[''v'' \<mapsto> 12]"
         and symbol = 13 and m' = "[''v'' \<mapsto> 12]" and h' = exampleHeap
         and d' = "[(LocationInfo 13, AlreadyDefined ''v'')]"] a
  have p: "[''v'' \<mapsto> (12::nat)] ''v'' \<noteq> None" by simp
  from insertSymbolicObject_frame[where h = exampleHeap and d = "[]" and m = "[''f'' \<mapsto> 9]"
         and symbol = 10 and hit = 9 and m' = "[''f'' \<mapsto> 9]"
         and h' = "exampleHeap\<lparr>symbols := exampleSymbols
               (9 := set_nextOverload (Some 10) (exampleSymbols 9))\<rparr>"
         and d' = "[]"] b c
  have q: "\<exists>tail. nextOverload (symbols exampleHeap tail) = None
         \<and> exampleHeap\<lparr>symbols := exampleSymbols
               (9 := set_nextOverload (Some 10) (exampleSymbols 9))\<rparr>
             = exampleHeap\<lparr>symbols := (symbols exampleHeap)
                 (tail := set_nextOverload (Some 10) (symbols exampleHeap tail))\<rparr>
         \<and> (\<exists>cs. overloadChain (symbols exampleHeap) 9 cs \<and> tail = last cs)"
    by blast
  from a p c q show ?thesis by blast
qed

section \<open>Properties of isTypeMatch\<close>

lemma isTypeMatch_absent:
  "isTypeMatch fuel h None dest = Some True" "isTypeMatch fuel h src None = Some True"
  by simp_all

lemma isTypeMatch_selfResolved:
  "selfResolved h src \<Longrightarrow> selfResolved h dest \<Longrightarrow>
   isTypeMatch fuel h (Some src) (Some dest) = isTypeMatchInternal fuel h src dest"
  by (auto simp: selfResolved_def simp del: isTypeMatchInternal.simps split: option.splits)

lemma isTypeMatch_resolves_absent:
  "templateTranslate s = Some translate \<Longrightarrow>
   map_of translate (declaredPlace (symbols h (symbolType s))) = Some None \<Longrightarrow>
   isTypeMatch fuel h (Some s) dest = Some True \<and> isTypeMatch fuel h src (Some s) = Some True"
  by (simp del: isTypeMatchInternal.simps)

lemma isTypeMatchInternal_types:
  assumes "symbolKind (symbols h (symbolType src)) = Type"
    and "symbolKind (symbols h (symbolType dest)) = Type"
  shows "isTypeMatchInternal fuel h src dest =
     (if sourceType (symbols h (symbolType dest)) = SourcePrimitive Any
         \<or> sourceType (symbols h (symbolType dest)) = SourcePrimitive Auto then Some True
      else
        (case (case sourceType (symbols h (symbolType src)) of
                 SourcePrimitive _ \<Rightarrow>
                   canCastFromPrimitiveType h (symbolType src) (symbolType dest)
               | SourceNode srcRef \<Rightarrow>
                   Some (declaredPlace (symbols h (symbolType src))
                           = declaredPlace (symbols h (symbolType dest))
                         \<or> canCastStatically h srcRef (sourceType (symbols h (symbolType dest)))
                              (symbolType src) (symbolType dest))) of
           None \<Rightarrow> None
         | Some True \<Rightarrow> Some True
         | Some False \<Rightarrow> constructorFallback fuel h src dest))"
  using assms
  by (auto simp: constructorFallback_def Let_def split: SourceType.splits option.splits bool.splits)

lemma constructsFrom_test:
  "(length ps = 1 \<and> (case ps ! 0 of None \<Rightarrow> False | Some p \<Rightarrow> Q p))
     = (case ps of [Some p] \<Rightarrow> Q p | _ \<Rightarrow> False)"
proof (cases ps)
  case Nil
  then show ?thesis by simp
next
  case (Cons a rest)
  then show ?thesis by (cases rest; cases a) simp_all
qed

lemma canConstructBy_unfold:
  "canConstructBy fuel h c srcType =
     (if constructsFrom h srcType c then Some True
      else case nextOverload (symbols h c) of
             Some nxt \<Rightarrow>
               (case fuel of 0 \<Rightarrow> None | Suc fuel' \<Rightarrow> canConstructBy fuel' h nxt srcType)
           | None \<Rightarrow> Some False)"
  by (subst canConstructBy.simps) (simp only: constructsFrom_test constructsFrom_def)

declare canConstructBy.simps [simp del]

lemma canConstructBy_chain:
  "overloadChain (symbols h) c cs \<Longrightarrow> length cs \<le> Suc fuel \<Longrightarrow>
   canConstructBy fuel h c srcType = Some (\<exists>f\<in>set cs. constructsFrom h srcType f)"
proof (induction "symbols h" c cs arbitrary: fuel rule: overloadChain.induct)
  case (1 c)
  then show ?case by simp
next
  case (2 c x)
  then show ?case by (subst canConstructBy_unfold) simp
next
  case (3 c x y rest)
  from "3.prems" obtain fuel' where f: "fuel = Suc fuel'" by (cases fuel) auto
  from "3.prems" have a: "x = c" "nextOverload (symbols h c) = Some y"
    "overloadChain (symbols h) y (y # rest)" by simp_all
  from "3.prems" f have l: "length (y # rest) \<le> Suc fuel'" by simp
  note ih = "3.hyps"[OF a(3) l]
  show ?case
  proof (cases "constructsFrom h srcType c")
    case True
    then show ?thesis using a by (subst canConstructBy_unfold) simp
  next
    case False
    then have "canConstructBy fuel h c srcType = canConstructBy fuel' h y srcType"
      using a f by (subst canConstructBy_unfold) simp
    with ih False a show ?thesis by simp
  qed
qed

declare isTypeMatch.simps [simp del] isTypeMatchInternal.simps [simp del]

lemma example_selfResolved [simp]:
  "selfResolved h intType" "selfResolved h stringType" "selfResolved h boolType"
  "selfResolved h anyType" "selfResolved h typeP" "selfResolved h typeQ"
  "selfResolved h typeA" "selfResolved h typeB" "selfResolved h typeC"
  by (simp_all add: selfResolved_def example_defs)

lemma example_canConstructImplicitly:
  "canConstructImplicitly fuel exampleHeap 0 (Some 0) ''P'' = Some True"
  "canConstructImplicitly fuel exampleHeap 0 (Some 0) ''Q'' = Some False"
  "canConstructImplicitly fuel exampleHeap 8 (Some 0) ''A'' = Some False"
  by (simp_all add: canConstructImplicitly_def findScopeShallowly_def findSymbolShallowly_def
        canConstructBy_unfold constructsFrom_def
        exampleScopes_def exampleNodes_def exampleSymbols_def intType_def stringType_def)

lemma canConstructImplicitly_found:
  assumes "destScope = Some ds" and "findScopeShallowly h ds name = Some cscope"
    and "ownerNode (scopes h cscope) = Some owner" and "nodeName (nodes h owner) = Class"
    and "findSymbolShallowly h cscope name = Some c"
    and "symbolKind (symbols h c) = Function"
  shows "canConstructImplicitly fuel h srcType destScope name =
           canConstructBy fuel h c (sourceType (symbols h srcType))"
  using assms by (simp add: canConstructImplicitly_def)

lemma canConstructImplicitly_not_found:
  assumes "\<not> (\<exists>ds cscope owner c. destScope = Some ds
              \<and> findScopeShallowly h ds name = Some cscope
              \<and> ownerNode (scopes h cscope) = Some owner \<and> nodeName (nodes h owner) = Class
              \<and> findSymbolShallowly h cscope name = Some c
              \<and> symbolKind (symbols h c) = Function)"
  shows "canConstructImplicitly fuel h srcType destScope name = Some False"
  using assms by (auto simp: canConstructImplicitly_def split: option.splits)

lemma reachesFallback_class:
  assumes "reachesFallback h src dest"
    and "sourceType (symbols h (symbolType dest)) = SourceNode destRef"
    and "nodeName (nodes h destRef) = Class"
  shows "isTypeMatch fuel h (Some src) (Some dest) =
           canConstructImplicitly fuel h (symbolType src) (sourceScope dest)
             (text' (tokens h (identifier' (nodes h destRef))))"
  using assms
  by (auto simp: reachesFallback_def isTypeMatch_selfResolved isTypeMatchInternal_types
        constructorFallback_def split: SourceType.splits)

text \<open>
  C8. Absent propagates as compatible, on both sides: \<open>isTypeMatch\<close> returns true
  when the source or the destination is \<open>undefined\<close>, whatever the other side is, and
  also when a side has a \<open>templateTranslate\<close> that binds its own declaration to
  \<open>undefined\<close>, so that it resolves to absent. No fuel is needed.
\<close>

theorem isTypeMatch_absent_compatible:
  "isTypeMatch fuel h None t = Some True \<and> isTypeMatch fuel h t None = Some True
   \<and> (templateTranslate s = Some translate
        \<and> map_of translate (declaredPlace (symbols h (symbolType s))) = Some None \<longrightarrow>
        isTypeMatch fuel h (Some s) t = Some True \<and> isTypeMatch fuel h t (Some s) = Some True)"
  using isTypeMatch_absent[of fuel h] isTypeMatch_resolves_absent[of s translate h fuel t t]
  by simp

theorem isTypeMatch_absent_compatible_witness:
  "isTypeMatch 0 exampleHeap None (Some boolType) = Some True
   \<and> isTypeMatch 0 exampleHeap (Some boolType) None = Some True
   \<and> isTypeMatch 0 exampleHeap (Some (DeducedType 0 None (Some [(0, None)]))) (Some boolType)
       = Some True
   \<and> isTypeMatch 0 exampleHeap (Some boolType) (Some (DeducedType 0 None (Some [(0, None)])))
       = Some True"
proof -
  have "templateTranslate (DeducedType 0 None (Some [(0, None)])) = Some [(0, None)]
        \<and> map_of [(0, None)]
            (declaredPlace (symbols exampleHeap (symbolType (DeducedType 0 None (Some [(0, None)])))))
          = Some None"
    by (simp add: exampleSymbols_def)
  with isTypeMatch_absent_compatible[of 0 exampleHeap "Some boolType"
         "DeducedType 0 None (Some [(0, None)])" "[(0, None)]"]
  show ?thesis by blast
qed

lemma primitive_source_unfold:
  assumes "selfResolved h src" "selfResolved h dest"
    and "symbolKind (symbols h (symbolType src)) = Type"
    and "symbolKind (symbols h (symbolType dest)) = Type"
    and "sourceType (symbols h (symbolType src)) = SourcePrimitive p"
  shows "isTypeMatch fuel h (Some src) (Some dest) =
     (if sourceType (symbols h (symbolType dest)) = SourcePrimitive Any
         \<or> sourceType (symbols h (symbolType dest)) = SourcePrimitive Auto then Some True
      else case canCastFromPrimitiveType h (symbolType src) (symbolType dest) of
             None \<Rightarrow> None
           | Some True \<Rightarrow> Some True
           | Some False \<Rightarrow> constructorFallback fuel h src dest)"
  using assms
  by (simp add: isTypeMatch_selfResolved isTypeMatchInternal_types)

text \<open>
  C3, as stated, fails: a Number source is compatible with the destination \<open>?\<close>, whose
  primitive tag is Any, and with the class \<open>P\<close>, which has the constructor
  \<open>P(int x)\<close>.
\<close>

theorem primitive_matrix_counterexample:
  "sourceType (symbols exampleHeap (symbolType intType)) = SourcePrimitive Number
   \<and> sourceType (symbols exampleHeap (symbolType anyType)) \<noteq> SourcePrimitive Number
   \<and> isTypeMatch 0 exampleHeap (Some intType) (Some anyType) = Some True
   \<and> sourceType (symbols exampleHeap (symbolType typeP)) \<noteq> SourcePrimitive Number
   \<and> isTypeMatch 0 exampleHeap (Some intType) (Some typeP) = Some True"
  by (simp add: isTypeMatch_selfResolved selfResolved_def isTypeMatchInternal_types
        canCastFromPrimitiveType_def constructorFallback_def example_canConstructImplicitly
        exampleSymbols_def exampleNodes_def exampleTokens_def intType_def anyType_def typeP_def)

text \<open>
  C3, amended. For a source and a destination that resolve to themselves and denote
  type symbols: a Number source is compatible when the destination's tag is Number, Any
  or Auto, and otherwise exactly when the constructor fallback accepts it (the
  destination is a class declaration with a fitting one-parameter constructor); a Bool
  source likewise with Bool; and a String source is compatible when the destination's
  declared name is \<open>string\<close> or \<open>String\<close> or its tag is Any or Auto, and otherwise
  exactly when the constructor fallback accepts it.
\<close>

theorem primitive_source_matches:
  assumes "selfResolved h src" and "selfResolved h dest"
    and "symbolKind (symbols h (symbolType src)) = Type"
    and "symbolKind (symbols h (symbolType dest)) = Type"
  shows "(sourceType (symbols h (symbolType src)) = SourcePrimitive Number \<longrightarrow>
            isTypeMatch fuel h (Some src) (Some dest) =
              (if sourceType (symbols h (symbolType dest))
                    \<in> {SourcePrimitive Number, SourcePrimitive Any, SourcePrimitive Auto}
               then Some True else constructorFallback fuel h src dest))
       \<and> (sourceType (symbols h (symbolType src)) = SourcePrimitive Bool \<longrightarrow>
            isTypeMatch fuel h (Some src) (Some dest) =
              (if sourceType (symbols h (symbolType dest))
                    \<in> {SourcePrimitive Bool, SourcePrimitive Any, SourcePrimitive Auto}
               then Some True else constructorFallback fuel h src dest))
       \<and> (sourceType (symbols h (symbolType src)) = SourcePrimitive String \<longrightarrow>
            isTypeMatch fuel h (Some src) (Some dest) =
              (if text' (tokens h (declaredPlace (symbols h (symbolType dest))))
                    \<in> {''string'', ''String''}
                  \<or> sourceType (symbols h (symbolType dest))
                    \<in> {SourcePrimitive Any, SourcePrimitive Auto}
               then Some True else constructorFallback fuel h src dest))"
  using primitive_source_unfold[OF assms, of Number fuel]
        primitive_source_unfold[OF assms, of Bool fuel]
        primitive_source_unfold[OF assms, of String fuel]
  by (auto simp: canCastFromPrimitiveType_def)

theorem primitive_source_matches_witness:
  "isTypeMatch 0 exampleHeap (Some intType) (Some intType) = Some True
   \<and> isTypeMatch 0 exampleHeap (Some intType) (Some boolType) = Some False
   \<and> isTypeMatch 0 exampleHeap (Some boolType) (Some anyType) = Some True
   \<and> isTypeMatch 0 exampleHeap (Some stringType) (Some stringType) = Some True
   \<and> isTypeMatch 0 exampleHeap (Some stringType) (Some intType) = Some False"
proof -
  have k: "symbolKind (symbols exampleHeap (symbolType intType)) = Type"
    "symbolKind (symbols exampleHeap (symbolType boolType)) = Type"
    "symbolKind (symbols exampleHeap (symbolType stringType)) = Type"
    "symbolKind (symbols exampleHeap (symbolType anyType)) = Type"
    by (simp_all add: exampleSymbols_def intType_def boolType_def stringType_def anyType_def)
  have s: "selfResolved exampleHeap intType" "selfResolved exampleHeap boolType"
    "selfResolved exampleHeap stringType" "selfResolved exampleHeap anyType"
    by simp_all
  from primitive_source_matches[OF s(1) s(1) k(1) k(1), of 0]
       primitive_source_matches[OF s(1) s(2) k(1) k(2), of 0]
       primitive_source_matches[OF s(2) s(4) k(2) k(4), of 0]
       primitive_source_matches[OF s(3) s(3) k(3) k(3), of 0]
       primitive_source_matches[OF s(3) s(1) k(3) k(1), of 0]
  show ?thesis
    by (simp add: constructorFallback_def exampleSymbols_def exampleTokens_def
          intType_def boolType_def stringType_def anyType_def)
qed

text \<open>
  C7. Inheritance is single-level. For classes \<open>a\<close> and \<open>b\<close> (deduced types that
  resolve to themselves) where the base list of \<open>b\<close> has an entry denoting the symbol of
  \<open>a\<close>, \<open>isTypeMatch(b, a)\<close> is true; and for a class \<open>c\<close>, declared elsewhere than
  \<open>a\<close>, whose base list holds only \<open>b\<close> (a symbol other than \<open>a\<close>),
  \<open>isTypeMatch(c, a)\<close> is false, provided no implicit construction of \<open>a\<close> from \<open>c\<close>
  applies.
\<close>

theorem inheritance_single_level:
  assumes "selfResolved h a" and "selfResolved h b" and "selfResolved h c"
    and "symbols h (symbolType a) = SymbolicType pa (SourceNode na) ta basesA"
    and "nodeName (nodes h na) = Class"
    and "symbols h (symbolType b) = SymbolicType pb (SourceNode nb) tb (Some basesB)"
    and "nodeName (nodes h nb) = Class"
    and "Some baseOfB \<in> set basesB" and "symbolType baseOfB = symbolType a"
  shows "isTypeMatch fuel h (Some b) (Some a) = Some True
       \<and> (symbols h (symbolType c) = SymbolicType pc (SourceNode nc) tc (Some [Some baseOfC])
          \<and> nodeName (nodes h nc) = Class
          \<and> symbolType baseOfC = symbolType b \<and> symbolType b \<noteq> symbolType a \<and> pc \<noteq> pa
          \<and> canConstructImplicitly fuel h (symbolType c) (sourceScope a)
               (text' (tokens h (identifier' (nodes h na)))) = Some False
          \<longrightarrow> isTypeMatch fuel h (Some c) (Some a) = Some False)"
proof (rule conjI)
  have "canCastStatically h nb (SourceNode na) (symbolType b) (symbolType a)"
    using assms(6-9) by (auto simp: canCastStatically_def list_ex_iff intro!: bexI[of _ "Some baseOfB"])
  then show "isTypeMatch fuel h (Some b) (Some a) = Some True"
    using assms(1,2,4,6)
    by (simp add: isTypeMatch_selfResolved isTypeMatchInternal_types)
next
  show "symbols h (symbolType c) = SymbolicType pc (SourceNode nc) tc (Some [Some baseOfC])
          \<and> nodeName (nodes h nc) = Class
          \<and> symbolType baseOfC = symbolType b \<and> symbolType b \<noteq> symbolType a \<and> pc \<noteq> pa
          \<and> canConstructImplicitly fuel h (symbolType c) (sourceScope a)
               (text' (tokens h (identifier' (nodes h na)))) = Some False
          \<longrightarrow> isTypeMatch fuel h (Some c) (Some a) = Some False"
  proof
    assume x: "symbols h (symbolType c) = SymbolicType pc (SourceNode nc) tc (Some [Some baseOfC])
          \<and> nodeName (nodes h nc) = Class
          \<and> symbolType baseOfC = symbolType b \<and> symbolType b \<noteq> symbolType a \<and> pc \<noteq> pa
          \<and> canConstructImplicitly fuel h (symbolType c) (sourceScope a)
               (text' (tokens h (identifier' (nodes h na)))) = Some False"
    then have "\<not> canCastStatically h nc (SourceNode na) (symbolType c) (symbolType a)"
      by (simp add: canCastStatically_def)
    with x show "isTypeMatch fuel h (Some c) (Some a) = Some False"
      using assms(1,3,4,5)
      by (simp add: isTypeMatch_selfResolved isTypeMatchInternal_types constructorFallback_def)
  qed
qed

theorem inheritance_single_level_witness:
  "isTypeMatch 0 exampleHeap (Some typeB) (Some typeA) = Some True
   \<and> isTypeMatch 0 exampleHeap (Some typeC) (Some typeA) = Some False"
proof -
  have a: "symbols exampleHeap (symbolType typeA) = SymbolicType 6 (SourceNode 2) None None"
    and b: "symbols exampleHeap (symbolType typeB) = SymbolicType 7 (SourceNode 3) None (Some [Some typeA])"
    and c: "symbols exampleHeap (symbolType typeC) = SymbolicType 8 (SourceNode 4) None (Some [Some typeB])"
    by (simp_all add: exampleSymbols_def typeA_def typeB_def typeC_def)
  have n: "nodeName (nodes exampleHeap 2) = Class" "nodeName (nodes exampleHeap 3) = Class"
    "nodeName (nodes exampleHeap 4) = Class"
    by (simp_all add: exampleNodes_def)
  have m: "Some typeA \<in> set [Some typeA]" "symbolType typeA = symbolType typeA" by simp_all
  have r: "symbolType typeB = symbolType typeB \<and> symbolType typeB \<noteq> symbolType typeA \<and> (8::nat) \<noteq> 6
     \<and> canConstructImplicitly 0 exampleHeap (symbolType typeC) (sourceScope typeA)
               (text' (tokens exampleHeap (identifier' (nodes exampleHeap 2)))) = Some False"
    using example_canConstructImplicitly(3)[of 0]
    by (simp add: typeA_def typeB_def typeC_def exampleNodes_def exampleTokens_def)
  from inheritance_single_level[OF example_selfResolved(7) example_selfResolved(8)
         example_selfResolved(9) a n(1) b n(2) m, of 0 8 4 None typeB] c n(3) r
  show ?thesis by blast
qed

lemma canConstructBy_true_reaches:
  "canConstructBy fuel h c t = Some True \<Longrightarrow>
   \<exists>g. (\<lambda>a b. nextOverload (symbols h a) = Some b)\<^sup>*\<^sup>* c g \<and> constructsFrom h t g"
proof (induction fuel arbitrary: c)
  case 0
  then have "constructsFrom h t c"
    by (subst (asm) canConstructBy_unfold) (auto split: if_splits option.splits)
  then show ?case by blast
next
  case (Suc fuel)
  show ?case
  proof (cases "constructsFrom h t c")
    case True
    then show ?thesis by blast
  next
    case False
    with Suc.prems obtain nxt where n: "nextOverload (symbols h c) = Some nxt"
      and r: "canConstructBy fuel h nxt t = Some True"
      by (subst (asm) canConstructBy_unfold) (auto split: if_splits option.splits)
    from Suc.IH[OF r] obtain g where
      "(\<lambda>a b. nextOverload (symbols h a) = Some b)\<^sup>*\<^sup>* nxt g" "constructsFrom h t g" by blast
    with n show ?thesis by (meson converse_rtranclp_into_rtranclp)
  qed
qed

lemma reaches_canConstructBy_true:
  "(\<lambda>a b. nextOverload (symbols h a) = Some b)\<^sup>*\<^sup>* c g \<Longrightarrow> constructsFrom h t g \<Longrightarrow>
   \<exists>fuel. canConstructBy fuel h c t = Some True"
proof (induction rule: converse_rtranclp_induct)
  case base
  then have "canConstructBy 0 h g t = Some True" by (subst canConstructBy_unfold) simp
  then show ?case by blast
next
  case (step c c')
  then obtain fuel where f: "canConstructBy fuel h c' t = Some True" by blast
  show ?case
  proof (cases "constructsFrom h t c")
    case True
    then have "canConstructBy 0 h c t = Some True" by (subst canConstructBy_unfold) simp
    then show ?thesis by blast
  next
    case False
    with step(1) f have "canConstructBy (Suc fuel) h c t = Some True"
      by (subst canConstructBy_unfold) simp
    then show ?thesis by blast
  qed
qed

lemma canConstructBy_succeeds_iff:
  "(\<exists>fuel. canConstructBy fuel h c t = Some True)
     \<longleftrightarrow> (\<exists>g. (\<lambda>a b. nextOverload (symbols h a) = Some b)\<^sup>*\<^sup>* c g \<and> constructsFrom h t g)"
  using canConstructBy_true_reaches reaches_canConstructBy_true by blast

lemma implicit_construction_succeeds_iff:
  assumes "reachesFallback h src dest"
    and "sourceType (symbols h (symbolType dest)) = SourceNode destRef"
    and "nodeName (nodes h destRef) = Class"
  shows "(\<exists>fuel. isTypeMatch fuel h (Some src) (Some dest) = Some True)
     \<longleftrightarrow> (\<exists>ds cscope owner c g. sourceScope dest = Some ds
            \<and> findScopeShallowly h ds (text' (tokens h (identifier' (nodes h destRef))))
                = Some cscope
            \<and> ownerNode (scopes h cscope) = Some owner \<and> nodeName (nodes h owner) = Class
            \<and> findSymbolShallowly h cscope (text' (tokens h (identifier' (nodes h destRef))))
                = Some c
            \<and> symbolKind (symbols h c) = Function
            \<and> (\<lambda>a b. nextOverload (symbols h a) = Some b)\<^sup>*\<^sup>* c g
            \<and> constructsFrom h (sourceType (symbols h (symbolType src))) g)"
  (is "?L \<longleftrightarrow> ?R")
proof
  let ?name = "text' (tokens h (identifier' (nodes h destRef)))"
  let ?t = "sourceType (symbols h (symbolType src))"
  assume ?L
  then obtain fuel where
    t: "canConstructImplicitly fuel h (symbolType src) (sourceScope dest) ?name = Some True"
    unfolding reachesFallback_class[OF assms] by blast
  have ex: "\<exists>ds cscope owner c. sourceScope dest = Some ds
              \<and> findScopeShallowly h ds ?name = Some cscope
              \<and> ownerNode (scopes h cscope) = Some owner \<and> nodeName (nodes h owner) = Class
              \<and> findSymbolShallowly h cscope ?name = Some c
              \<and> symbolKind (symbols h c) = Function"
  proof (rule ccontr)
    assume "\<not> ?thesis"
    from canConstructImplicitly_not_found[OF this, of fuel "symbolType src"] t
    show False by simp
  qed
  then obtain ds cscope owner c where c: "sourceScope dest = Some ds"
      "findScopeShallowly h ds ?name = Some cscope"
      "ownerNode (scopes h cscope) = Some owner" "nodeName (nodes h owner) = Class"
      "findSymbolShallowly h cscope ?name = Some c" "symbolKind (symbols h c) = Function"
    by blast
  from t have "canConstructBy fuel h c ?t = Some True"
    unfolding canConstructImplicitly_found[OF c] .
  from canConstructBy_true_reaches[OF this] c show ?R by blast
next
  let ?name = "text' (tokens h (identifier' (nodes h destRef)))"
  let ?t = "sourceType (symbols h (symbolType src))"
  assume ?R
  then obtain ds cscope owner c g where c: "sourceScope dest = Some ds"
      "findScopeShallowly h ds ?name = Some cscope"
      "ownerNode (scopes h cscope) = Some owner" "nodeName (nodes h owner) = Class"
      "findSymbolShallowly h cscope ?name = Some c" "symbolKind (symbols h c) = Function"
    and g: "(\<lambda>a b. nextOverload (symbols h a) = Some b)\<^sup>*\<^sup>* c g" "constructsFrom h ?t g"
    by blast
  from reaches_canConstructBy_true[OF g] obtain fuel where
    "canConstructBy fuel h c ?t = Some True" by blast
  then have "isTypeMatch fuel h (Some src) (Some dest) = Some True"
    unfolding reachesFallback_class[OF assms] canConstructImplicitly_found[OF c] .
  then show ?L by blast
qed

text \<open>
  C2. When \<open>isTypeMatch\<close> reaches the constructor fallback with a class-declaration
  destination, it succeeds (returns true, given enough stack) if and only if the
  destination's source scope has a child scope of the destination's name that is owned
  by a class declaration and holds a Function symbol \<open>c\<close> of that name, and some
  overload \<open>g\<close> reached from \<open>c\<close> along \<open>nextOverload\<close> has exactly one parameter,
  whose type is a type symbol with the \<open>sourceType\<close> of the source: the same primitive
  tag, or the same declaration node (\<open>===\<close> on \<open>sourceType\<close>). Without such a
  constructor symbol the result is false; with one whose overload chain is the finite
  \<open>cs\<close> (and a stack that allows \<open>length cs\<close> calls), the result is whether some
  overload of \<open>cs\<close> has such a parameter.
\<close>

theorem implicit_construction:
  assumes "reachesFallback h src dest"
    and "sourceType (symbols h (symbolType dest)) = SourceNode destRef"
    and "nodeName (nodes h destRef) = Class"
  shows "((\<exists>fuel. isTypeMatch fuel h (Some src) (Some dest) = Some True)
          \<longleftrightarrow> (\<exists>ds cscope owner c g. sourceScope dest = Some ds
              \<and> findScopeShallowly h ds (text' (tokens h (identifier' (nodes h destRef))))
                  = Some cscope
              \<and> ownerNode (scopes h cscope) = Some owner \<and> nodeName (nodes h owner) = Class
              \<and> findSymbolShallowly h cscope (text' (tokens h (identifier' (nodes h destRef))))
                  = Some c
              \<and> symbolKind (symbols h c) = Function
              \<and> (\<lambda>a b. nextOverload (symbols h a) = Some b)\<^sup>*\<^sup>* c g
              \<and> constructsFrom h (sourceType (symbols h (symbolType src))) g))
       \<and> (\<not> (\<exists>ds cscope owner c. sourceScope dest = Some ds
              \<and> findScopeShallowly h ds (text' (tokens h (identifier' (nodes h destRef))))
                  = Some cscope
              \<and> ownerNode (scopes h cscope) = Some owner \<and> nodeName (nodes h owner) = Class
              \<and> findSymbolShallowly h cscope (text' (tokens h (identifier' (nodes h destRef))))
                  = Some c
              \<and> symbolKind (symbols h c) = Function)
           \<longrightarrow> isTypeMatch fuel h (Some src) (Some dest) = Some False)
       \<and> (sourceScope dest = Some ds
           \<and> findScopeShallowly h ds (text' (tokens h (identifier' (nodes h destRef))))
               = Some cscope
           \<and> ownerNode (scopes h cscope) = Some owner \<and> nodeName (nodes h owner) = Class
           \<and> findSymbolShallowly h cscope (text' (tokens h (identifier' (nodes h destRef))))
               = Some c
           \<and> symbolKind (symbols h c) = Function
           \<and> overloadChain (symbols h) c cs \<and> length cs \<le> Suc fuel
           \<longrightarrow> isTypeMatch fuel h (Some src) (Some dest)
                 = Some (\<exists>f\<in>set cs.
                     constructsFrom h (sourceType (symbols h (symbolType src))) f))"
proof (rule conjI)
  show "((\<exists>fuel. isTypeMatch fuel h (Some src) (Some dest) = Some True)
            \<longleftrightarrow> (\<exists>ds cscope owner c g. sourceScope dest = Some ds
                \<and> findScopeShallowly h ds (text' (tokens h (identifier' (nodes h destRef))))
                    = Some cscope
                \<and> ownerNode (scopes h cscope) = Some owner \<and> nodeName (nodes h owner) = Class
                \<and> findSymbolShallowly h cscope (text' (tokens h (identifier' (nodes h destRef))))
                    = Some c
                \<and> symbolKind (symbols h c) = Function
                \<and> (\<lambda>a b. nextOverload (symbols h a) = Some b)\<^sup>*\<^sup>* c g
                \<and> constructsFrom h (sourceType (symbols h (symbolType src))) g))"
    by (rule implicit_construction_succeeds_iff[OF assms])
next
  show "(\<not> (\<exists>ds cscope owner c. sourceScope dest = Some ds
              \<and> findScopeShallowly h ds (text' (tokens h (identifier' (nodes h destRef))))
                  = Some cscope
              \<and> ownerNode (scopes h cscope) = Some owner \<and> nodeName (nodes h owner) = Class
              \<and> findSymbolShallowly h cscope (text' (tokens h (identifier' (nodes h destRef))))
                  = Some c
              \<and> symbolKind (symbols h c) = Function)
           \<longrightarrow> isTypeMatch fuel h (Some src) (Some dest) = Some False)
       \<and> (sourceScope dest = Some ds
           \<and> findScopeShallowly h ds (text' (tokens h (identifier' (nodes h destRef))))
               = Some cscope
           \<and> ownerNode (scopes h cscope) = Some owner \<and> nodeName (nodes h owner) = Class
           \<and> findSymbolShallowly h cscope (text' (tokens h (identifier' (nodes h destRef))))
               = Some c
           \<and> symbolKind (symbols h c) = Function
           \<and> overloadChain (symbols h) c cs \<and> length cs \<le> Suc fuel
           \<longrightarrow> isTypeMatch fuel h (Some src) (Some dest)
                 = Some (\<exists>f\<in>set cs.
                     constructsFrom h (sourceType (symbols h (symbolType src))) f))"
  unfolding reachesFallback_class[OF assms]
    using canConstructImplicitly_not_found[of "sourceScope dest" h
            "text' (tokens h (identifier' (nodes h destRef)))" fuel "symbolType src"]
          canConstructImplicitly_found[of "sourceScope dest" ds h
            "text' (tokens h (identifier' (nodes h destRef)))" cscope owner c fuel "symbolType src"]
          canConstructBy_chain[of h c cs fuel "sourceType (symbols h (symbolType src))"]
    by auto
qed

theorem implicit_construction_witness:
  "isTypeMatch 0 exampleHeap (Some intType) (Some typeP) = Some True
   \<and> isTypeMatch 0 exampleHeap (Some intType) (Some typeQ) = Some False
   \<and> isTypeMatch 0 exampleHeap (Some intType) (Some typeA) = Some False"
proof -
  have r: "reachesFallback exampleHeap intType typeP" "reachesFallback exampleHeap intType typeQ"
    "reachesFallback exampleHeap intType typeA"
    by (simp_all add: reachesFallback_def canCastFromPrimitiveType_def exampleSymbols_def
          intType_def typeP_def typeQ_def typeA_def selfResolved_def)
  have s: "sourceType (symbols exampleHeap (symbolType typeP)) = SourceNode 0"
    "sourceType (symbols exampleHeap (symbolType typeQ)) = SourceNode 1"
    "sourceType (symbols exampleHeap (symbolType typeA)) = SourceNode 2"
    by (simp_all add: exampleSymbols_def typeP_def typeQ_def typeA_def)
  have n: "nodeName (nodes exampleHeap 0) = Class" "nodeName (nodes exampleHeap 1) = Class"
    "nodeName (nodes exampleHeap 2) = Class"
    by (simp_all add: exampleNodes_def)
  have p: "sourceScope typeP = Some 0
           \<and> findScopeShallowly exampleHeap 0 (text' (tokens exampleHeap (identifier' (nodes exampleHeap 0))))
               = Some 1
           \<and> ownerNode (scopes exampleHeap 1) = Some 0 \<and> nodeName (nodes exampleHeap 0) = Class
           \<and> findSymbolShallowly exampleHeap 1 (text' (tokens exampleHeap (identifier' (nodes exampleHeap 0))))
               = Some 14
           \<and> symbolKind (symbols exampleHeap 14) = Function
           \<and> overloadChain (symbols exampleHeap) 14 [14] \<and> length [14::nat] \<le> Suc 0"
    by (simp add: findScopeShallowly_def findSymbolShallowly_def exampleScopes_def
          exampleNodes_def exampleTokens_def exampleSymbols_def typeP_def)
  have q: "sourceScope typeQ = Some 0
           \<and> findScopeShallowly exampleHeap 0 (text' (tokens exampleHeap (identifier' (nodes exampleHeap 1))))
               = Some 2
           \<and> ownerNode (scopes exampleHeap 2) = Some 1 \<and> nodeName (nodes exampleHeap 1) = Class
           \<and> findSymbolShallowly exampleHeap 2 (text' (tokens exampleHeap (identifier' (nodes exampleHeap 1))))
               = Some 15
           \<and> symbolKind (symbols exampleHeap 15) = Function
           \<and> overloadChain (symbols exampleHeap) 15 [15] \<and> length [15::nat] \<le> Suc 0"
    by (simp add: findScopeShallowly_def findSymbolShallowly_def exampleScopes_def
          exampleNodes_def exampleTokens_def exampleSymbols_def typeQ_def)
  have a: "\<not> (\<exists>ds cscope owner c. sourceScope typeA = Some ds
              \<and> findScopeShallowly exampleHeap ds
                   (text' (tokens exampleHeap (identifier' (nodes exampleHeap 2)))) = Some cscope
              \<and> ownerNode (scopes exampleHeap cscope) = Some owner
              \<and> nodeName (nodes exampleHeap owner) = Class
              \<and> findSymbolShallowly exampleHeap cscope
                   (text' (tokens exampleHeap (identifier' (nodes exampleHeap 2)))) = Some c
              \<and> symbolKind (symbols exampleHeap c) = Function)"
    by (simp add: findScopeShallowly_def exampleScopes_def exampleNodes_def exampleTokens_def
          typeA_def)
  have c: "(\<exists>f\<in>set [14]. constructsFrom exampleHeap
              (sourceType (symbols exampleHeap (symbolType intType))) f)"
    "\<not> (\<exists>f\<in>set [15]. constructsFrom exampleHeap
              (sourceType (symbols exampleHeap (symbolType intType))) f)"
    by (simp_all add: constructsFrom_def exampleSymbols_def intType_def stringType_def)
  from implicit_construction[OF r(1) s(1) n(1), where ds = 0 and cscope = 1 and owner = 0
         and c = 14 and cs = "[14]" and fuel = 0] p
       implicit_construction[OF r(2) s(2) n(2), where ds = 0 and cscope = 2 and owner = 1
         and c = 15 and cs = "[15]" and fuel = 0] q
       implicit_construction[OF r(3) s(3) n(3), where ds = 0 and cscope = 0 and owner = 0
         and c = 0 and cs = "[]" and fuel = 0] a c
  show ?thesis by simp
qed

section \<open>Fuel: more stack never changes a result\<close>

lemma canConstructBy_mono:
  "canConstructBy n h c t = Some r \<Longrightarrow> canConstructBy (Suc n) h c t = Some r"
proof (induction n arbitrary: c)
  case 0
  then show ?case
    by (subst canConstructBy_unfold, subst (asm) canConstructBy_unfold)
       (auto split: if_splits option.splits)
next
  case (Suc n)
  from Suc.prems show ?case
    by (subst canConstructBy_unfold, subst (asm) canConstructBy_unfold)
       (auto split: if_splits option.splits dest: Suc.IH)
qed

lemma canConstructImplicitly_mono:
  "canConstructImplicitly n h s sc name = Some r \<Longrightarrow>
   canConstructImplicitly (Suc n) h s sc name = Some r"
  by (auto simp: canConstructImplicitly_def split: option.splits if_splits
        dest: canConstructBy_mono)

lemma constructorFallback_mono:
  "constructorFallback n h s d = Some r \<Longrightarrow> constructorFallback (Suc n) h s d = Some r"
  by (auto simp: constructorFallback_def split: SourceType.splits if_splits
        dest: canConstructImplicitly_mono)

lemma isTypeMatchInternal_handler:
  "symbolKind (symbols h (symbolType s)) = Function \<Longrightarrow>
   isTypeMatchInternal n h s d = isFunctionHandlerMatch n h (symbolType s) (symbolType d)"
  by (simp add: isTypeMatchInternal.simps)

lemma isTypeMatchInternal_other:
  "symbolKind (symbols h (symbolType s)) \<noteq> Function \<Longrightarrow>
   symbolKind (symbols h (symbolType s)) \<noteq> Type \<or> symbolKind (symbols h (symbolType d)) \<noteq> Type \<Longrightarrow>
   isTypeMatchInternal n h s d =
     (if symbolKind (symbols h (symbolType d)) = Function then Some False else None)"
  by (auto simp: isTypeMatchInternal.simps)

lemma isTypeMatchInternal_mono_step:
  assumes H: "\<And>a b r. isFunctionHandlerMatch n h a b = Some r
                \<Longrightarrow> isFunctionHandlerMatch (Suc n) h a b = Some r"
    and r: "isTypeMatchInternal n h s d = Some r"
  shows "isTypeMatchInternal (Suc n) h s d = Some r"
proof (cases "symbolKind (symbols h (symbolType s)) = Function")
  case True
  with r H show ?thesis by (simp add: isTypeMatchInternal_handler)
next
  case nf: False
  show ?thesis
  proof (cases "symbolKind (symbols h (symbolType s)) = Type
                \<and> symbolKind (symbols h (symbolType d)) = Type")
    case True
    then have k: "symbolKind (symbols h (symbolType s)) = Type"
      "symbolKind (symbols h (symbolType d)) = Type" by simp_all
    from r show ?thesis
      unfolding isTypeMatchInternal_types[OF k]
      by (auto split: if_splits option.splits bool.splits dest: constructorFallback_mono)
  next
    case False
    with nf r show ?thesis by (simp add: isTypeMatchInternal_other)
  qed
qed

lemma isTypeMatch_mono_step:
  assumes I: "\<And>a b r. isTypeMatchInternal n h a b = Some r
                \<Longrightarrow> isTypeMatchInternal (Suc n) h a b = Some r"
    and r: "isTypeMatch n h s d = Some r"
  shows "isTypeMatch (Suc n) h s d = Some r"
  using r
  by (subst isTypeMatch.simps, subst (asm) isTypeMatch.simps)
     (auto simp: Let_def split: if_splits dest: I)

lemma isFunctionHandlerMatch_params_mono_step:
  assumes T: "\<And>a b r. isTypeMatch n h a b = Some r \<Longrightarrow> isTypeMatch (Suc n) h a b = Some r"
  shows "isFunctionHandlerMatch_params n h ps = Some r
         \<Longrightarrow> isFunctionHandlerMatch_params (Suc n) h ps = Some r"
proof (induction ps)
  case Nil
  then show ?case by simp
next
  case (Cons p ps)
  obtain a b where p: "p = (a, b)" by (cases p)
  from Cons.prems show ?case unfolding p
    by (auto split: option.splits bool.splits dest: T Cons.IH)
qed

lemma isTypeMatch_mono_aux:
  "(\<forall>s d r. isTypeMatch n h s d = Some r \<longrightarrow> isTypeMatch (Suc n) h s d = Some r)
   \<and> (\<forall>ps r. isFunctionHandlerMatch_params n h ps = Some r
          \<longrightarrow> isFunctionHandlerMatch_params (Suc n) h ps = Some r)"
proof (induction n)
  case 0
  have H: "\<And>a b r. isFunctionHandlerMatch 0 h a b = Some r
             \<Longrightarrow> isFunctionHandlerMatch (Suc 0) h a b = Some r"
    by (auto split: if_splits)
  note I = isTypeMatchInternal_mono_step[OF H]
  note T = isTypeMatch_mono_step[OF I]
  note P = isFunctionHandlerMatch_params_mono_step[OF T]
  from T P show ?case by blast
next
  case (Suc n)
  then have T0: "\<And>a b r. isTypeMatch n h a b = Some r \<Longrightarrow> isTypeMatch (Suc n) h a b = Some r"
    and P0: "\<And>ps r. isFunctionHandlerMatch_params n h ps = Some r
               \<Longrightarrow> isFunctionHandlerMatch_params (Suc n) h ps = Some r"
    by blast+
  have H: "\<And>a b r. isFunctionHandlerMatch (Suc n) h a b = Some r
             \<Longrightarrow> isFunctionHandlerMatch (Suc (Suc n)) h a b = Some r"
    by (auto split: if_splits option.splits bool.splits dest: T0 P0)
  note I = isTypeMatchInternal_mono_step[OF H]
  note T = isTypeMatch_mono_step[OF I]
  note P = isFunctionHandlerMatch_params_mono_step[OF T]
  from T P show ?case by blast
qed

lemma isTypeMatch_mono:
  "isTypeMatch n h s d = Some r \<Longrightarrow> n \<le> m \<Longrightarrow> isTypeMatch m h s d = Some r"
proof (induction m)
  case 0
  then show ?case by simp
next
  case (Suc m)
  show ?case
  proof (cases "n = Suc m")
    case True
    with Suc.prems show ?thesis by simp
  next
    case False
    with Suc have "isTypeMatch m h s d = Some r" by simp
    with isTypeMatch_mono_aux[of m h] show ?thesis by blast
  qed
qed

section \<open>Properties of checkFunctionMatch\<close>

declare checkFunctionMatch.simps [simp del] checkFunctionMatch_loop.simps [simp del]
  handleTooMuchCallerArgs.simps [simp del]

lemma actualType_beyond:
  "length (callerArgs args) \<le> i \<Longrightarrow> actualType h args i = None"
  by (simp add: actualType_def elemAt_def split: option.splits)

lemma typeCheckReturns_cases:
  "typeCheckReturns fuel h args i \<Longrightarrow> accepted fuel h args i \<or> mismatched fuel h args i"
  by (auto simp: typeCheckReturns_def accepted_def mismatched_def)

lemma accepted_not_mismatched: "accepted fuel h args i \<Longrightarrow> \<not> mismatched fuel h args i"
  by (auto simp: accepted_def mismatched_def)

lemma typeCheckReturns_mono:
  "typeCheckReturns n h args i \<Longrightarrow> n \<le> m \<Longrightarrow> typeCheckReturns m h args i"
  unfolding typeCheckReturns_def using isTypeMatch_mono[of n h _ _ _ m] by blast

lemma loop_Nil: "checkFunctionMatch_loop fuel h d args i [] = referAndReturn h d args"
  by (simp add: checkFunctionMatch_loop.simps)

lemma loop_missing_final:
  "length (callerArgs args) \<le> i \<Longrightarrow> defaultExpr param = None \<Longrightarrow>
   nextOverload (symbols h (calleeFunc args)) = None \<Longrightarrow>
   checkFunctionMatch_loop fuel h d args i (param # rest) =
     referAndReturn h (d @ [missingArgumentError h args param]) args"
  by (simp add: checkFunctionMatch_loop.simps)

lemma loop_missing_next:
  "length (callerArgs args) \<le> i \<Longrightarrow> defaultExpr param = None \<Longrightarrow>
   nextOverload (symbols h (calleeFunc args)) = Some nxt \<Longrightarrow>
   checkFunctionMatch_loop (Suc fuel) h d args i (param # rest) =
     checkFunctionMatch fuel h d (args\<lparr>calleeFunc := nxt\<rparr>)"
  by (simp add: checkFunctionMatch_loop.simps)

lemma loop_accepted:
  "\<not> (length (callerArgs args) \<le> i \<and> defaultExpr param = None) \<Longrightarrow>
   accepted fuel h args i \<Longrightarrow>
   checkFunctionMatch_loop fuel h d args i (param # rest) =
     checkFunctionMatch_loop fuel h d args (Suc i) rest"
  by (subst checkFunctionMatch_loop.simps) (auto simp: accepted_def Let_def)

lemma loop_mismatched_final:
  "\<not> (length (callerArgs args) \<le> i \<and> defaultExpr param = None) \<Longrightarrow>
   mismatched fuel h args i \<Longrightarrow> nextOverload (symbols h (calleeFunc args)) = None \<Longrightarrow>
   i < length (argList (callerNode args)) \<Longrightarrow>
   checkFunctionMatch_loop fuel h d args i (param # rest) =
     checkFunctionMatch_loop fuel h (d @ [conversionError h args i]) args (Suc i) rest"
  by (subst checkFunctionMatch_loop.simps) (auto simp: mismatched_def Let_def)

lemma loop_mismatched_next:
  "\<not> (length (callerArgs args) \<le> i \<and> defaultExpr param = None) \<Longrightarrow>
   mismatched (Suc fuel) h args i \<Longrightarrow>
   nextOverload (symbols h (calleeFunc args)) = Some nxt \<Longrightarrow>
   checkFunctionMatch_loop (Suc fuel) h d args i (param # rest) =
     checkFunctionMatch fuel h d (args\<lparr>calleeFunc := nxt\<rparr>)"
  by (subst checkFunctionMatch_loop.simps) (auto simp: mismatched_def Let_def)

lemma loop_final:
  assumes "nextOverload (symbols h (calleeFunc args)) = None"
    and "length (callerArgs args) \<le> length (argList (callerNode args))"
    and "\<forall>j < length (callerArgs args). typeCheckReturns fuel h args j"
  shows "length (callerArgs args) \<le> i + length ps \<Longrightarrow>
     checkFunctionMatch_loop fuel h d args i ps =
       referAndReturn h
         (d @ map (conversionError h args)
                (filter (mismatched fuel h args) [i ..< length (callerArgs args)])
            @ (case firstMissing args i ps of
                 None \<Rightarrow> []
               | Some param \<Rightarrow> [missingArgumentError h args param]))
         args"
proof (induction ps arbitrary: i d)
  case Nil
  then show ?case by (simp add: loop_Nil)
next
  case (Cons param rest)
  show ?case
  proof (cases "length (callerArgs args) \<le> i \<and> defaultExpr param = None")
    case True
    then show ?thesis using assms(1) by (simp add: loop_missing_final)
  next
    case nm: False
    from Cons.prems have l: "length (callerArgs args) \<le> Suc i + length rest" by simp
    note ih = Cons.IH[OF l]
    show ?thesis
    proof (cases "length (callerArgs args) \<le> i")
      case True
      then have "accepted fuel h args i" by (simp add: accepted_def actualType_beyond)
      with nm True ih[of d] show ?thesis by (auto simp: loop_accepted)
    next
      case False
      then have lt: "i < length (callerArgs args)" by simp
      then have u: "[i ..< length (callerArgs args)] = i # [Suc i ..< length (callerArgs args)]"
        by (simp add: upt_conv_Cons)
      from lt assms(3) have "typeCheckReturns fuel h args i" by simp
      then show ?thesis
      proof (rule disjE[OF typeCheckReturns_cases])
        assume a: "accepted fuel h args i"
        with nm lt ih[of d] show ?thesis
          unfolding u by (auto simp: loop_accepted accepted_not_mismatched)
      next
        assume m: "mismatched fuel h args i"
        from lt assms(2) have "i < length (argList (callerNode args))" by simp
        with nm m assms(1) lt ih[of "d @ [conversionError h args i]"] show ?thesis
          unfolding u by (auto simp: loop_mismatched_final)
      qed
    qed
  qed
qed

lemma checkFunctionMatch_too_many:
  "length (paramList (sourceNode (symbols h (calleeFunc args)))) < length (callerArgs args) \<Longrightarrow>
   checkFunctionMatch fuel h d args = handleTooMuchCallerArgs fuel h d args"
  by (simp add: checkFunctionMatch.simps)

lemma checkFunctionMatch_enough:
  "length (callerArgs args) \<le> length (paramList (sourceNode (symbols h (calleeFunc args)))) \<Longrightarrow>
   checkFunctionMatch fuel h d args =
     checkFunctionMatch_loop fuel h d args 0 (paramList (sourceNode (symbols h (calleeFunc args))))"
  by (simp add: checkFunctionMatch.simps)

lemma handleTooMuchCallerArgs_final:
  "nextOverload (symbols h (calleeFunc args)) = None \<Longrightarrow>
   handleTooMuchCallerArgs fuel h d args =
     referAndReturn h
       (d @ [(getNodeLocation (nodeRange (callerNode args)),
              TooManyArguments (length (paramList (sourceNode (symbols h (calleeFunc args)))))
                (length (callerArgs args)))])
       args"
  by (simp add: handleTooMuchCallerArgs.simps)

lemma handleTooMuchCallerArgs_next:
  "nextOverload (symbols h (calleeFunc args)) = Some nxt \<Longrightarrow>
   handleTooMuchCallerArgs (Suc fuel) h d args =
     checkFunctionMatch fuel h d (args\<lparr>calleeFunc := nxt\<rparr>)"
  by (simp add: handleTooMuchCallerArgs.simps)

lemma final_overload:
  assumes "nextOverload (symbols h (calleeFunc args)) = None"
    and "length (callerArgs args) \<le> length (argList (callerNode args))"
    and "\<forall>j < length (callerArgs args). typeCheckReturns fuel h args j"
    and "length (callerArgs args) \<le> length (paramList (sourceNode (symbols h (calleeFunc args))))"
  shows "checkFunctionMatch fuel h d args =
       referAndReturn h
         (d @ map (conversionError h args)
                (filter (mismatched fuel h args) [0 ..< length (callerArgs args)])
            @ (case firstMissing args 0 (paramList (sourceNode (symbols h (calleeFunc args)))) of
                 None \<Rightarrow> []
               | Some param \<Rightarrow> [missingArgumentError h args param]))
         args"
  using loop_final[OF assms(1-3), of 0 "paramList (sourceNode (symbols h (calleeFunc args)))" d]
    assms(4)
  by (simp add: checkFunctionMatch_enough)

lemma loop_nonfinal:
  assumes "nextOverload (symbols h (calleeFunc args)) = Some nxt"
    and "\<forall>j < length (callerArgs args). typeCheckReturns (Suc fuel) h args j"
  shows "checkFunctionMatch_loop (Suc fuel) h d args i ps = referAndReturn h d args
       \<or> checkFunctionMatch_loop (Suc fuel) h d args i ps
           = checkFunctionMatch fuel h d (args\<lparr>calleeFunc := nxt\<rparr>)"
proof (induction ps arbitrary: i)
  case Nil
  then show ?case by (simp add: loop_Nil)
next
  case (Cons param rest)
  show ?case
  proof (cases "length (callerArgs args) \<le> i \<and> defaultExpr param = None")
    case True
    then show ?thesis using assms(1) by (simp add: loop_missing_next)
  next
    case nm: False
    show ?thesis
    proof (cases "length (callerArgs args) \<le> i")
      case True
      then have "accepted (Suc fuel) h args i" by (simp add: accepted_def actualType_beyond)
      with nm Cons.IH[of "Suc i"] show ?thesis by (simp add: loop_accepted)
    next
      case False
      with assms(2) have "typeCheckReturns (Suc fuel) h args i" by simp
      then show ?thesis
      proof (rule disjE[OF typeCheckReturns_cases])
        assume "accepted (Suc fuel) h args i"
        with nm Cons.IH[of "Suc i"] show ?thesis by (simp add: loop_accepted)
      next
        assume "mismatched (Suc fuel) h args i"
        with nm assms(1) show ?thesis by (simp add: loop_mismatched_next)
      qed
    qed
  qed
qed

lemma checkFunctionMatch_settles:
  "overloadChain (symbols h) (calleeFunc args) cs \<Longrightarrow>
   length (callerArgs args) \<le> length (argList (callerNode args)) \<Longrightarrow>
   \<forall>g\<in>set cs. \<forall>j < length (callerArgs args).
      typeCheckReturns fuel0 h (args\<lparr>calleeFunc := g\<rparr>) j \<Longrightarrow>
   fuel0 + length cs \<le> Suc fuel \<Longrightarrow>
   \<exists>g\<in>set cs. \<exists>ds. checkFunctionMatch fuel h d args
      = referAndReturn h (d @ ds) (args\<lparr>calleeFunc := g\<rparr>)"
proof (induction cs arbitrary: args fuel)
  case Nil
  then show ?case by simp
next
  case (Cons x rest)
  from Cons.prems(1) have x: "x = calleeFunc args" using overloadChain_hd by fastforce
  have self: "args\<lparr>calleeFunc := x\<rparr> = args" by (simp add: x)
  from Cons.prems(4) have "fuel0 \<le> fuel" by simp
  with Cons.prems(3) self
  have t: "\<forall>j < length (callerArgs args). typeCheckReturns fuel h args j"
    using typeCheckReturns_mono[of fuel0 h args _ fuel] by (metis list.set_intros(1))
  let ?ps = "paramList (sourceNode (symbols h (calleeFunc args)))"
  show ?case
  proof (cases rest)
    case Nil
    with Cons.prems(1) x have final: "nextOverload (symbols h (calleeFunc args)) = None" by simp
    show ?thesis
    proof (cases "length ?ps < length (callerArgs args)")
      case True
      with final have "\<exists>ds. checkFunctionMatch fuel h d args
          = referAndReturn h (d @ ds) (args\<lparr>calleeFunc := x\<rparr>)"
        unfolding self
        by (simp only: checkFunctionMatch_too_many handleTooMuchCallerArgs_final) blast
      then show ?thesis by simp
    next
      case False
      then have "length (callerArgs args) \<le> length ?ps" by simp
      from final_overload[OF final Cons.prems(2) t this, of d]
      have "\<exists>ds. checkFunctionMatch fuel h d args
          = referAndReturn h (d @ ds) (args\<lparr>calleeFunc := x\<rparr>)"
        unfolding self by blast
      then show ?thesis by simp
    qed
  next
    case (Cons y rest')
    with Cons.prems(1) x have nxt: "nextOverload (symbols h (calleeFunc args)) = Some y"
      and ch: "overloadChain (symbols h) y (y # rest')" by simp_all
    from Cons.prems(4) Cons obtain f' where f: "fuel = Suc f'" by (cases fuel) auto
    let ?args = "args\<lparr>calleeFunc := y\<rparr>"
    have "\<exists>g\<in>set rest. \<exists>ds. checkFunctionMatch f' h d ?args
            = referAndReturn h (d @ ds) (?args\<lparr>calleeFunc := g\<rparr>)"
    proof (rule Cons.IH)
      show "overloadChain (symbols h) (calleeFunc ?args) rest" using ch Cons by simp
      show "length (callerArgs ?args) \<le> length (argList (callerNode ?args))"
        using Cons.prems(2) by simp
      show "\<forall>g\<in>set rest. \<forall>j<length (callerArgs ?args).
              typeCheckReturns fuel0 h (?args\<lparr>calleeFunc := g\<rparr>) j"
        using Cons.prems(3) by simp
      show "fuel0 + length rest \<le> Suc f'" using Cons.prems(4) f by simp
    qed
    then have next_settles: "\<exists>g\<in>set (x # rest). \<exists>ds. checkFunctionMatch f' h d ?args
            = referAndReturn h (d @ ds) (args\<lparr>calleeFunc := g\<rparr>)"
      by auto
    show ?thesis
    proof (cases "length ?ps < length (callerArgs args)")
      case True
      with nxt have "checkFunctionMatch fuel h d args = checkFunctionMatch f' h d ?args"
        unfolding f by (simp add: checkFunctionMatch_too_many handleTooMuchCallerArgs_next)
      with next_settles show ?thesis by simp
    next
      case False
      then have e: "checkFunctionMatch fuel h d args
                      = checkFunctionMatch_loop fuel h d args 0 ?ps"
        by (simp add: checkFunctionMatch_enough)
      from loop_nonfinal[OF nxt, of f' d 0 ?ps] t f
      have "checkFunctionMatch_loop fuel h d args 0 ?ps = referAndReturn h d args
            \<or> checkFunctionMatch_loop fuel h d args 0 ?ps = checkFunctionMatch f' h d ?args"
        by simp
      then show ?thesis
      proof
        assume "checkFunctionMatch_loop fuel h d args 0 ?ps = referAndReturn h d args"
        with e have "checkFunctionMatch fuel h d args
               = referAndReturn h (d @ []) (args\<lparr>calleeFunc := x\<rparr>)"
          unfolding self by simp
        then show ?thesis by (metis list.set_intros(1))
      next
        assume "checkFunctionMatch_loop fuel h d args 0 ?ps = checkFunctionMatch f' h d ?args"
        with e next_settles show ?thesis by simp
      qed
    qed
  qed
qed

lemma firstMissing_found:
  "length (callerArgs args) \<le> i + length pre \<Longrightarrow>
   \<forall>k < length pre. length (callerArgs args) \<le> i + k \<longrightarrow> defaultExpr (pre ! k) \<noteq> None \<Longrightarrow>
   defaultExpr param = None \<Longrightarrow>
   firstMissing args i (pre @ param # post) = Some param"
proof (induction pre arbitrary: i)
  case Nil
  then show ?case by simp
next
  case (Cons p pre)
  from Cons.prems(2) have "\<not> (length (callerArgs args) \<le> i \<and> defaultExpr p = None)"
    by fastforce
  moreover have "firstMissing args (Suc i) (pre @ param # post) = Some param"
  proof (rule Cons.IH)
    show "length (callerArgs args) \<le> Suc i + length pre" using Cons.prems(1) by simp
    show "\<forall>k<length pre. length (callerArgs args) \<le> Suc i + k \<longrightarrow> defaultExpr (pre ! k) \<noteq> None"
      using Cons.prems(2) by fastforce
    show "defaultExpr param = None" by (rule Cons.prems(3))
  qed
  ultimately show ?case by auto
qed

lemma firstMissing_none:
  "\<forall>k < length ps. length (callerArgs args) \<le> i + k \<longrightarrow> defaultExpr (ps ! k) \<noteq> None \<Longrightarrow>
   firstMissing args i ps = None"
proof (induction ps arbitrary: i)
  case Nil
  then show ?case by simp
next
  case (Cons p ps)
  from Cons.prems have "\<not> (length (callerArgs args) \<le> i \<and> defaultExpr p = None)"
    by fastforce
  moreover have "firstMissing args (Suc i) ps = None"
    by (rule Cons.IH) (use Cons.prems in fastforce)
  ultimately show ?case by auto
qed

lemma drop_defaults:
  assumes "\<forall>q\<in>set (drop n ps). defaultExpr q \<noteq> None"
  shows "\<forall>k < length ps. n \<le> 0 + k \<longrightarrow> defaultExpr (ps ! k) \<noteq> None"
proof (intro allI impI)
  fix k
  assume k: "k < length ps" "n \<le> 0 + k"
  then have "drop n ps ! (k - n) = ps ! k" by simp
  moreover from k have "k - n < length (drop n ps)" by simp
  ultimately have "ps ! k \<in> set (drop n ps)" by (metis nth_mem)
  with assms show "defaultExpr (ps ! k) \<noteq> None" by blast
qed

lemma filter_upt_two:
  assumes "i < j" and "j < n" and "P i" and "P j"
    and "\<forall>k<n. k \<noteq> i \<and> k \<noteq> j \<longrightarrow> \<not> P k"
  shows "filter P [0 ..< n] = [i, j]"
proof (rule sorted_distinct_set_unique)
  show "sorted (filter P [0 ..< n])" by (simp add: sorted_wrt_filter)
  show "distinct (filter P [0 ..< n])" by simp
  show "sorted [i, j]" using assms(1) by simp
  show "distinct [i, j]" using assms(1) by simp
  show "set (filter P [0 ..< n]) = set [i, j]" using assms by auto
qed

lemma not_missing_conversionError [simp]: "\<not> isMissingArgument (conversionError h args i)"
  by (simp add: isMissingArgument_def conversionError_def)

lemma missing_missingArgumentError [simp]: "isMissingArgument (missingArgumentError h args p)"
  by (simp add: isMissingArgument_def missingArgumentError_def)

lemma convert_conversionError [simp]: "isCannotConvert (conversionError h args i)"
  by (simp add: isCannotConvert_def conversionError_def)

lemma not_convert_missingArgumentError [simp]:
  "\<not> isCannotConvert (missingArgumentError h args p)"
  by (simp add: isCannotConvert_def missingArgumentError_def)

lemma example_isTypeMatch:
  "isTypeMatch n exampleHeap (Some intType) (Some intType) = Some True"
  "isTypeMatch n exampleHeap (Some stringType) (Some stringType) = Some True"
  "isTypeMatch n exampleHeap (Some stringType) (Some intType) = Some False"
  "isTypeMatch n exampleHeap (Some boolType) (Some intType) = Some False"
  "isTypeMatch n exampleHeap (Some intType) (Some stringType) = Some False"
  by (simp_all add: isTypeMatch_selfResolved selfResolved_def isTypeMatchInternal_types
        canCastFromPrimitiveType_def constructorFallback_def
        exampleSymbols_def exampleTokens_def intType_def stringType_def boolType_def)

lemma exampleCall_fields [simp]:
  "scope (exampleCall types callee) = 0"
  "callerArgs (exampleCall types callee) = types"
  "calleeFunc (exampleCall types callee) = callee"
  "templateTranslator (exampleCall types callee) = None"
  "callerNode (exampleCall types callee)
     = NodeFuncCall (ParsedRange 100) 18 (map ParsedRange [101 ..< 101 + length types])"
  "(exampleCall types callee)\<lparr>calleeFunc := other\<rparr> = exampleCall types other"
  by (simp_all add: exampleCall_def)

lemma example_types_distinct [simp]:
  "intType \<noteq> stringType" "stringType \<noteq> intType" "intType \<noteq> boolType" "boolType \<noteq> intType"
  "stringType \<noteq> boolType" "boolType \<noteq> stringType"
  by (simp_all add: intType_def stringType_def boolType_def)

lemma pushReference_effect:
  "referencedList (scopes (pushReferenceOfFuncOrConstructor h node sc g) sc)
     = referencedList (scopes h sc)
       @ [\<lparr>declaredSymbol = g, referencedToken = getIdentifierInFuncOrConstructor node\<rparr>]"
  "sc' \<noteq> sc \<Longrightarrow> scopes (pushReferenceOfFuncOrConstructor h node sc g) sc' = scopes h sc'"
  "symbols (pushReferenceOfFuncOrConstructor h node sc g) = symbols h"
  "tokens (pushReferenceOfFuncOrConstructor h node sc g) = tokens h"
  "nodes (pushReferenceOfFuncOrConstructor h node sc g) = nodes h"
  by (simp_all add: pushReferenceOfFuncOrConstructor_def)

lemma settledOn_refer:
  "referAndReturn h (d @ ds) args = Some res \<Longrightarrow> settledOn h d args res"
  unfolding settledOn_def referAndReturn_def by blast

lemma settledOn_next:
  assumes "nextOverload (symbols h (calleeFunc args)) = Some nxt"
    and "settledOn h d (args\<lparr>calleeFunc := nxt\<rparr>) res"
  shows "settledOn h d args res"
proof -
  from assms(2) obtain g ds where
    r: "(\<lambda>a b. nextOverload (symbols h a) = Some b)\<^sup>*\<^sup>* nxt g"
    and e: "res = (returnType (symbols h g),
                 pushReferenceOfFuncOrConstructor h (callerNode args) (scope args) g, d @ ds)"
    unfolding settledOn_def by auto
  from assms(1) r have "(\<lambda>a b. nextOverload (symbols h a) = Some b)\<^sup>*\<^sup>* (calleeFunc args) g"
    by (meson converse_rtranclp_into_rtranclp)
  with e show ?thesis unfolding settledOn_def by blast
qed

lemma settledOn_more:
  "settledOn h (d @ e) args res \<Longrightarrow> settledOn h d args res"
  unfolding settledOn_def by (metis append.assoc)

lemma loop_settled:
  assumes IH: "\<And>fuel' args' d' res'. fuel = Suc fuel' \<Longrightarrow>
                 checkFunctionMatch fuel' h d' args' = Some res' \<Longrightarrow> settledOn h d' args' res'"
  shows "checkFunctionMatch_loop fuel h d args i ps = Some res \<Longrightarrow> settledOn h d args res"
proof (induction ps arbitrary: i d)
  case Nil
  then show ?case using settledOn_refer[of h d "[]" args res] by (simp add: loop_Nil)
next
  case (Cons param rest)
  have nextcall: "settledOn h d args res"
    if "nextOverload (symbols h (calleeFunc args)) = Some nxt"
      and "(case fuel of 0 \<Rightarrow> None
            | Suc fuel' \<Rightarrow> checkFunctionMatch fuel' h d (args\<lparr>calleeFunc := nxt\<rparr>)) = Some res"
    for nxt
    using that IH settledOn_next by (cases fuel) auto
  have refer: "settledOn h d args res"
    if "referAndReturn h (d @ [missingArgumentError h args param]) args = Some res"
    using that by (rule settledOn_refer)
  have more: "settledOn h d args res"
    if "checkFunctionMatch_loop fuel h (d @ [conversionError h args i]) args (Suc i) rest = Some res"
    using Cons.IH[OF that] by (rule settledOn_more)
  from Cons.prems show ?case
    by (subst (asm) checkFunctionMatch_loop.simps)
       (auto simp: Let_def split: if_splits option.splits bool.splits
          dest: refer nextcall Cons.IH more)
qed

lemma handleTooMuchCallerArgs_settled:
  assumes IH: "\<And>fuel' args' d' res'. fuel = Suc fuel' \<Longrightarrow>
                 checkFunctionMatch fuel' h d' args' = Some res' \<Longrightarrow> settledOn h d' args' res'"
  shows "handleTooMuchCallerArgs fuel h d args = Some res \<Longrightarrow> settledOn h d args res"
proof -
  assume r: "handleTooMuchCallerArgs fuel h d args = Some res"
  show ?thesis
  proof (cases "nextOverload (symbols h (calleeFunc args))")
    case None
    with r show ?thesis
      by (simp add: handleTooMuchCallerArgs_final settledOn_refer)
  next
    case (Some nxt)
    with r obtain fuel' where f: "fuel = Suc fuel'"
      by (cases fuel) (simp_all add: handleTooMuchCallerArgs.simps)
    with r Some have "checkFunctionMatch fuel' h d (args\<lparr>calleeFunc := nxt\<rparr>) = Some res"
      by (simp add: handleTooMuchCallerArgs_next)
    from IH[OF f this] Some show ?thesis by (rule settledOn_next[rotated])
  qed
qed

lemma checkFunctionMatch_settled:
  "checkFunctionMatch fuel h d args = Some res \<Longrightarrow> settledOn h d args res"
proof (induction fuel arbitrary: d args res)
  case 0
  then show ?case
    using loop_settled[where fuel = 0 and h = h and d = d and args = args and i = 0
            and res = res]
      handleTooMuchCallerArgs_settled[where fuel = 0 and h = h and d = d and args = args
            and res = res]
    by (subst (asm) checkFunctionMatch.simps) (auto simp: Let_def split: if_splits)
next
  case (Suc fuel)
  have IH: "\<And>fuel' args' d' res'. Suc fuel = Suc fuel' \<Longrightarrow>
                 checkFunctionMatch fuel' h d' args' = Some res' \<Longrightarrow> settledOn h d' args' res'"
    using Suc.IH by simp
  from Suc.prems show ?case
    using loop_settled[where fuel = "Suc fuel" and h = h and d = d and args = args
            and i = 0 and res = res, OF IH]
      handleTooMuchCallerArgs_settled[where fuel = "Suc fuel" and h = h and d = d
            and args = args and res = res, OF IH]
    by (subst (asm) checkFunctionMatch.simps) (auto simp: Let_def split: if_splits)
qed

text \<open>
  C4. Every run of \<open>checkFunctionMatch\<close> that returns has settled on one overload
  \<open>g\<close>, reached from the callee along \<open>nextOverload\<close>: it returns the return type of
  \<open>g\<close>, the diagnostics have only grown, and the heap is unchanged but for exactly one
  reference edge, appended to \<open>referencedList\<close> of the scope, that pairs \<open>g\<close> with the
  call-site identifier token. On a finite overload chain \<open>cs\<close>, with a stack deep
  enough for the chain and for the \<open>isTypeMatch\<close> calls of the loop (which all return)
  and an argument node for every argument type, it does return, and \<open>g\<close> is in the
  chain. When the caller supplies more arguments than the callee declares and no
  overload remains, the callee itself is that \<open>g\<close>, and the only diagnostic added is the
  arity error with the declared and the supplied count.
\<close>

theorem checkFunctionMatch_refers_and_returns:
  "(checkFunctionMatch fuel h d args = Some (r, h', d') \<longrightarrow>
      (\<exists>g ds. (\<lambda>a b. nextOverload (symbols h a) = Some b)\<^sup>*\<^sup>* (calleeFunc args) g
         \<and> r = returnType (symbols h g) \<and> d' = d @ ds
         \<and> h' = pushReferenceOfFuncOrConstructor h (callerNode args) (scope args) g
         \<and> referencedList (scopes h' (scope args))
             = referencedList (scopes h (scope args))
               @ [\<lparr>declaredSymbol = g,
                   referencedToken = getIdentifierInFuncOrConstructor (callerNode args)\<rparr>]
         \<and> (\<forall>sc. sc \<noteq> scope args \<longrightarrow> scopes h' sc = scopes h sc)
         \<and> symbols h' = symbols h \<and> tokens h' = tokens h \<and> nodes h' = nodes h))
   \<and> (overloadChain (symbols h) (calleeFunc args) cs
       \<and> length (callerArgs args) \<le> length (argList (callerNode args))
       \<and> (\<forall>g\<in>set cs. \<forall>j < length (callerArgs args).
             typeCheckReturns fuel0 h (args\<lparr>calleeFunc := g\<rparr>) j)
       \<and> fuel0 + length cs \<le> Suc fuel
       \<longrightarrow> (\<exists>g\<in>set cs. \<exists>ds.
             checkFunctionMatch fuel h d args
               = Some (returnType (symbols h g),
                       pushReferenceOfFuncOrConstructor h (callerNode args) (scope args) g,
                       d @ ds)))
   \<and> (nextOverload (symbols h (calleeFunc args)) = None
       \<and> length (paramList (sourceNode (symbols h (calleeFunc args))))
           < length (callerArgs args)
       \<longrightarrow> checkFunctionMatch fuel h d args =
             Some (returnType (symbols h (calleeFunc args)),
                   pushReferenceOfFuncOrConstructor h (callerNode args) (scope args)
                     (calleeFunc args),
                   d @ [(getNodeLocation (nodeRange (callerNode args)),
                         TooManyArguments
                           (length (paramList (sourceNode (symbols h (calleeFunc args)))))
                           (length (callerArgs args)))]))"
proof (intro conjI impI)
  assume "checkFunctionMatch fuel h d args = Some (r, h', d')"
  then have "settledOn h d args (r, h', d')" by (rule checkFunctionMatch_settled)
  then obtain g ds where
    g: "(\<lambda>a b. nextOverload (symbols h a) = Some b)\<^sup>*\<^sup>* (calleeFunc args) g"
    and e: "r = returnType (symbols h g)" "d' = d @ ds"
      "h' = pushReferenceOfFuncOrConstructor h (callerNode args) (scope args) g"
    unfolding settledOn_def by auto
  with pushReference_effect[where h = h and node = "callerNode args"
         and sc = "scope args" and g = g]
  show "\<exists>g ds. (\<lambda>a b. nextOverload (symbols h a) = Some b)\<^sup>*\<^sup>* (calleeFunc args) g
         \<and> r = returnType (symbols h g) \<and> d' = d @ ds
         \<and> h' = pushReferenceOfFuncOrConstructor h (callerNode args) (scope args) g
         \<and> referencedList (scopes h' (scope args))
             = referencedList (scopes h (scope args))
               @ [\<lparr>declaredSymbol = g,
                   referencedToken = getIdentifierInFuncOrConstructor (callerNode args)\<rparr>]
         \<and> (\<forall>sc. sc \<noteq> scope args \<longrightarrow> scopes h' sc = scopes h sc)
         \<and> symbols h' = symbols h \<and> tokens h' = tokens h \<and> nodes h' = nodes h"
    by blast
next
  assume a: "overloadChain (symbols h) (calleeFunc args) cs
       \<and> length (callerArgs args) \<le> length (argList (callerNode args))
       \<and> (\<forall>g\<in>set cs. \<forall>j < length (callerArgs args).
             typeCheckReturns fuel0 h (args\<lparr>calleeFunc := g\<rparr>) j)
       \<and> fuel0 + length cs \<le> Suc fuel"
  then have "\<exists>g\<in>set cs. \<exists>ds. checkFunctionMatch fuel h d args
      = referAndReturn h (d @ ds) (args\<lparr>calleeFunc := g\<rparr>)"
    using checkFunctionMatch_settles[where h = h and args = args and cs = cs
            and ?fuel0.0 = fuel0 and fuel = fuel and d = d]
    by blast
  then show "\<exists>g\<in>set cs. \<exists>ds.
             checkFunctionMatch fuel h d args
               = Some (returnType (symbols h g),
                       pushReferenceOfFuncOrConstructor h (callerNode args) (scope args) g,
                       d @ ds)"
    by (simp add: referAndReturn_def)
next
  assume "nextOverload (symbols h (calleeFunc args)) = None
       \<and> length (paramList (sourceNode (symbols h (calleeFunc args))))
           < length (callerArgs args)"
  then show "checkFunctionMatch fuel h d args =
             Some (returnType (symbols h (calleeFunc args)),
                   pushReferenceOfFuncOrConstructor h (callerNode args) (scope args)
                     (calleeFunc args),
                   d @ [(getNodeLocation (nodeRange (callerNode args)),
                         TooManyArguments
                           (length (paramList (sourceNode (symbols h (calleeFunc args)))))
                           (length (callerArgs args)))])"
    by (simp add: checkFunctionMatch_too_many handleTooMuchCallerArgs_final referAndReturn_def)
qed

theorem checkFunctionMatch_refers_and_returns_witness:
  "checkFunctionMatch 0 exampleHeap []
     (exampleCall [Some intType, Some intType, Some intType, Some intType, Some intType] 16)
     = Some (Some boolType,
             pushReferenceOfFuncOrConstructor exampleHeap
               (NodeFuncCall (ParsedRange 100) 18
                  [ParsedRange 101, ParsedRange 102, ParsedRange 103, ParsedRange 104,
                   ParsedRange 105]) 0 16,
             [(getNodeLocation (ParsedRange 100), TooManyArguments 4 5)])
   \<and> referencedList (scopes (pushReferenceOfFuncOrConstructor exampleHeap
               (NodeFuncCall (ParsedRange 100) 18
                  [ParsedRange 101, ParsedRange 102, ParsedRange 103, ParsedRange 104,
                   ParsedRange 105]) 0 16) 0)
       = [\<lparr>declaredSymbol = 16, referencedToken = 18\<rparr>]
   \<and> (\<exists>g\<in>set [16]. \<exists>ds. checkFunctionMatch 0 exampleHeap []
          (exampleCall [Some intType, Some intType, Some intType, Some intType, Some intType] 16)
          = Some (returnType (symbols exampleHeap g),
                  pushReferenceOfFuncOrConstructor exampleHeap
                    (NodeFuncCall (ParsedRange 100) 18
                       [ParsedRange 101, ParsedRange 102, ParsedRange 103, ParsedRange 104,
                        ParsedRange 105]) 0 g,
                  [] @ ds))"
proof -
  let ?c = "exampleCall [Some intType, Some intType, Some intType, Some intType, Some intType] 16"
  have g: "symbols exampleHeap 16 = SymbolicFunction 16
              (NodeFunc [NodeParam (Some 19) None, NodeParam (Some 20) None,
                         NodeParam (Some 21) None, NodeParam (Some 22) (Some 0)])
              (Some boolType) [Some intType, Some intType, Some intType, Some intType] None"
    by (simp add: exampleSymbols_def)
  have ch: "overloadChain (symbols exampleHeap) (calleeFunc ?c) [16]
       \<and> length (callerArgs ?c) \<le> length (argList (callerNode ?c))
       \<and> (\<forall>g\<in>set [16]. \<forall>j < length (callerArgs ?c).
             typeCheckReturns 0 exampleHeap (?c\<lparr>calleeFunc := g\<rparr>) j)
       \<and> 0 + length [16::nat] \<le> Suc 0"
    by (auto simp add: typeCheckReturns_def actualType_def expectedType_def elemAt_def g
          example_isTypeMatch less_Suc_eq simp del: exampleHeap_fields)
  have tm: "nextOverload (symbols exampleHeap (calleeFunc ?c)) = None
           \<and> length (paramList (sourceNode (symbols exampleHeap (calleeFunc ?c))))
               < length (callerArgs ?c)"
    by (simp add: g del: exampleHeap_fields)
  note inst = checkFunctionMatch_refers_and_returns[where h = exampleHeap and args = ?c
      and d = "[]" and fuel = 0 and ?fuel0.0 = 0 and cs = "[16]"]
  from inst tm
  have r: "checkFunctionMatch 0 exampleHeap [] ?c =
                 Some (returnType (symbols exampleHeap (calleeFunc ?c)),
                       pushReferenceOfFuncOrConstructor exampleHeap (callerNode ?c) (scope ?c)
                         (calleeFunc ?c),
                       [] @ [(getNodeLocation (nodeRange (callerNode ?c)),
                             TooManyArguments
                               (length (paramList (sourceNode (symbols exampleHeap (calleeFunc ?c)))))
                               (length (callerArgs ?c)))])"
    by blast
  from inst ch
  have s: "\<exists>g\<in>set [16]. \<exists>ds. checkFunctionMatch 0 exampleHeap [] ?c
               = Some (returnType (symbols exampleHeap g),
                       pushReferenceOfFuncOrConstructor exampleHeap (callerNode ?c) (scope ?c) g,
                       [] @ ds)"
    by blast
  have e: "referencedList (scopes (pushReferenceOfFuncOrConstructor exampleHeap
               (NodeFuncCall (ParsedRange 100) 18
                  [ParsedRange 101, ParsedRange 102, ParsedRange 103, ParsedRange 104,
                   ParsedRange 105]) 0 16) 0)
       = [\<lparr>declaredSymbol = 16, referencedToken = 18\<rparr>]"
    by (simp add: pushReference_effect exampleScopes_def)
  from r s e show ?thesis
    by (simp add: g upt_rec del: exampleHeap_fields)
qed

text \<open>
  C5. Against the final overload (the supplied arguments being no more than the declared
  parameters): when \<open>param\<close> is the first declared parameter beyond the supplied arguments
  that has no default expression, the diagnostics added are the conversion errors of the
  mismatched supplied arguments followed by the missing-argument error naming \<open>param\<close>,
  which is the only missing-argument error: whatever parameters \<open>post\<close> follow \<open>param\<close>,
  they are not checked. When every parameter beyond the supplied arguments has a default
  expression, no missing-argument error is added and the loop runs to its end: a
  mismatch never ends it.
\<close>

theorem missing_argument_aborts_loop:
  assumes "nextOverload (symbols h (calleeFunc args)) = None"
    and "length (callerArgs args) \<le> length (argList (callerNode args))"
    and "\<forall>j < length (callerArgs args). typeCheckReturns fuel h args j"
  shows "(paramList (sourceNode (symbols h (calleeFunc args))) = pre @ param # post
          \<and> length (callerArgs args) \<le> length pre
          \<and> (\<forall>q\<in>set (drop (length (callerArgs args)) pre). defaultExpr q \<noteq> None)
          \<and> defaultExpr param = None
          \<longrightarrow> checkFunctionMatch fuel h d args =
                Some (returnType (symbols h (calleeFunc args)),
                      pushReferenceOfFuncOrConstructor h (callerNode args) (scope args)
                        (calleeFunc args),
                      d @ map (conversionError h args)
                            (filter (mismatched fuel h args) [0 ..< length (callerArgs args)])
                        @ [missingArgumentError h args param])
              \<and> filter isMissingArgument
                    (map (conversionError h args)
                       (filter (mismatched fuel h args) [0 ..< length (callerArgs args)])
                     @ [missingArgumentError h args param])
                  = [(getNodeLocation (nodeRange (callerNode args)),
                      MissingArgument
                        (map_option (\<lambda>t. text' (tokens h t)) (paramIdentifier param)))])
       \<and> (length (callerArgs args)
            \<le> length (paramList (sourceNode (symbols h (calleeFunc args))))
          \<and> (\<forall>q\<in>set (drop (length (callerArgs args))
                          (paramList (sourceNode (symbols h (calleeFunc args))))).
                defaultExpr q \<noteq> None)
          \<longrightarrow> checkFunctionMatch fuel h d args =
                Some (returnType (symbols h (calleeFunc args)),
                      pushReferenceOfFuncOrConstructor h (callerNode args) (scope args)
                        (calleeFunc args),
                      d @ map (conversionError h args)
                            (filter (mismatched fuel h args) [0 ..< length (callerArgs args)])))"
proof (rule conjI; rule impI)
  let ?ps = "paramList (sourceNode (symbols h (calleeFunc args)))"
  assume a: "?ps = pre @ param # post
          \<and> length (callerArgs args) \<le> length pre
          \<and> (\<forall>q\<in>set (drop (length (callerArgs args)) pre). defaultExpr q \<noteq> None)
          \<and> defaultExpr param = None"
  then have l: "length (callerArgs args) \<le> length ?ps" by simp
  from a have "firstMissing args 0 (pre @ param # post) = Some param"
    by (intro firstMissing_found drop_defaults) simp_all
  with a have fm: "firstMissing args 0 ?ps = Some param" by simp
  have "filter isMissingArgument
          (map (conversionError h args)
             (filter (mismatched fuel h args) [0 ..< length (callerArgs args)])) = []"
    by (simp add: filter_empty_conv)
  then show "checkFunctionMatch fuel h d args =
                Some (returnType (symbols h (calleeFunc args)),
                      pushReferenceOfFuncOrConstructor h (callerNode args) (scope args)
                        (calleeFunc args),
                      d @ map (conversionError h args)
                            (filter (mismatched fuel h args) [0 ..< length (callerArgs args)])
                        @ [missingArgumentError h args param])
              \<and> filter isMissingArgument
                    (map (conversionError h args)
                       (filter (mismatched fuel h args) [0 ..< length (callerArgs args)])
                     @ [missingArgumentError h args param])
                  = [(getNodeLocation (nodeRange (callerNode args)),
                      MissingArgument
                        (map_option (\<lambda>t. text' (tokens h t)) (paramIdentifier param)))]"
    unfolding final_overload[OF assms l] fm
    by (simp add: referAndReturn_def) (simp add: missingArgumentError_def)
next
  let ?ps = "paramList (sourceNode (symbols h (calleeFunc args)))"
  assume a: "length (callerArgs args) \<le> length ?ps
          \<and> (\<forall>q\<in>set (drop (length (callerArgs args)) ?ps). defaultExpr q \<noteq> None)"
  then have l: "length (callerArgs args) \<le> length ?ps" by simp
  from a have fm: "firstMissing args 0 ?ps = None"
    by (intro firstMissing_none drop_defaults) simp
  show "checkFunctionMatch fuel h d args =
                Some (returnType (symbols h (calleeFunc args)),
                      pushReferenceOfFuncOrConstructor h (callerNode args) (scope args)
                        (calleeFunc args),
                      d @ map (conversionError h args)
                            (filter (mismatched fuel h args) [0 ..< length (callerArgs args)]))"
    unfolding final_overload[OF assms l] fm by (simp add: referAndReturn_def)
qed

theorem missing_argument_aborts_loop_witness:
  "checkFunctionMatch 0 exampleHeap [] (exampleCall [Some intType, Some stringType] 16)
     = Some (Some boolType,
             pushReferenceOfFuncOrConstructor exampleHeap
               (NodeFuncCall (ParsedRange 100) 18 [ParsedRange 101, ParsedRange 102]) 0 16,
             [(getNodeLocation (ParsedRange 102), CannotConvert ''string'' ''int''),
              (getNodeLocation (ParsedRange 100), MissingArgument (Some ''c''))])
   \<and> checkFunctionMatch 0 exampleHeap []
       (exampleCall [Some intType, Some stringType, Some intType] 16)
     = Some (Some boolType,
             pushReferenceOfFuncOrConstructor exampleHeap
               (NodeFuncCall (ParsedRange 100) 18
                  [ParsedRange 101, ParsedRange 102, ParsedRange 103]) 0 16,
             [(getNodeLocation (ParsedRange 102), CannotConvert ''string'' ''int'')])"
proof -
  let ?a = "exampleCall [Some intType, Some stringType] 16"
  let ?b = "exampleCall [Some intType, Some stringType, Some intType] 16"
  have g: "symbols exampleHeap 16 = SymbolicFunction 16
              (NodeFunc [NodeParam (Some 19) None, NodeParam (Some 20) None,
                         NodeParam (Some 21) None, NodeParam (Some 22) (Some 0)])
              (Some boolType) [Some intType, Some intType, Some intType, Some intType] None"
    by (simp add: exampleSymbols_def)
  have fa: "nextOverload (symbols exampleHeap (calleeFunc ?a)) = None"
    and fb: "nextOverload (symbols exampleHeap (calleeFunc ?b)) = None"
    by (simp_all add: g del: exampleHeap_fields)
  have la: "length (callerArgs ?a) \<le> length (argList (callerNode ?a))"
    and lb: "length (callerArgs ?b) \<le> length (argList (callerNode ?b))"
    by simp_all
  have ta: "\<forall>j < length (callerArgs ?a). typeCheckReturns 0 exampleHeap ?a j"
    and tb: "\<forall>j < length (callerArgs ?b). typeCheckReturns 0 exampleHeap ?b j"
    by (auto simp add: typeCheckReturns_def actualType_def expectedType_def elemAt_def g
          example_isTypeMatch All_less_Suc less_Suc_eq simp del: exampleHeap_fields)
  have ma: "filter (mismatched 0 exampleHeap ?a) [0 ..< length (callerArgs ?a)] = [1]"
    and mb: "filter (mismatched 0 exampleHeap ?b) [0 ..< length (callerArgs ?b)] = [1]"
    by (simp_all add: mismatched_def actualType_def expectedType_def elemAt_def g
          example_isTypeMatch upt_rec del: exampleHeap_fields)
  have ca: "conversionError exampleHeap ?a (Suc 0)
              = (getNodeLocation (ParsedRange 102), CannotConvert ''string'' ''int'')"
    and cb: "conversionError exampleHeap ?b (Suc 0)
              = (getNodeLocation (ParsedRange 102), CannotConvert ''string'' ''int'')"
    by (simp_all add: conversionError_def actualType_def expectedType_def elemAt_def
          exampleSymbols_def exampleTokens_def stringType_def intType_def upt_rec)
  have pa: "paramList (sourceNode (symbols exampleHeap (calleeFunc ?a)))
              = [NodeParam (Some 19) None, NodeParam (Some 20) None]
                @ NodeParam (Some 21) None # [NodeParam (Some 22) (Some 0)]
          \<and> length (callerArgs ?a) \<le> length [NodeParam (Some 19) None, NodeParam (Some 20) None]
          \<and> (\<forall>q\<in>set (drop (length (callerArgs ?a))
                          [NodeParam (Some 19) None, NodeParam (Some 20) None]).
                defaultExpr q \<noteq> None)
          \<and> defaultExpr (NodeParam (Some 21) None) = None"
    by (simp add: g del: exampleHeap_fields)
  have pb: "length (callerArgs ?b)
            \<le> length (paramList (sourceNode (symbols exampleHeap (calleeFunc ?b))))
          \<and> (\<forall>q\<in>set (drop (length (callerArgs ?b))
                          (paramList (sourceNode (symbols exampleHeap (calleeFunc ?b))))).
                defaultExpr q \<noteq> None)"
    by (simp add: g del: exampleHeap_fields)
  have m: "missingArgumentError exampleHeap ?a (NodeParam (Some 21) None)
             = (getNodeLocation (ParsedRange 100), MissingArgument (Some ''c''))"
    by (simp add: missingArgumentError_def exampleTokens_def)
  from missing_argument_aborts_loop[OF fa la ta, where pre = "[NodeParam (Some 19) None, NodeParam (Some 20) None]"
         and param = "NodeParam (Some 21) None" and post = "[NodeParam (Some 22) (Some 0)]"
         and d = "[]"] pa
  have ra: "checkFunctionMatch 0 exampleHeap [] ?a =
                Some (returnType (symbols exampleHeap (calleeFunc ?a)),
                      pushReferenceOfFuncOrConstructor exampleHeap (callerNode ?a) (scope ?a)
                        (calleeFunc ?a),
                      [] @ map (conversionError exampleHeap ?a)
                            (filter (mismatched 0 exampleHeap ?a) [0 ..< length (callerArgs ?a)])
                        @ [missingArgumentError exampleHeap ?a (NodeParam (Some 21) None)])"
    by blast
  from missing_argument_aborts_loop[OF fb lb tb, where d = "[]"] pb
  have rb: "checkFunctionMatch 0 exampleHeap [] ?b =
                Some (returnType (symbols exampleHeap (calleeFunc ?b)),
                      pushReferenceOfFuncOrConstructor exampleHeap (callerNode ?b) (scope ?b)
                        (calleeFunc ?b),
                      [] @ map (conversionError exampleHeap ?b)
                            (filter (mismatched 0 exampleHeap ?b) [0 ..< length (callerArgs ?b)]))"
    by blast
  show ?thesis
    unfolding ra rb ma mb
    by (simp add: ca cb m g upt_rec del: exampleHeap_fields)
qed

text \<open>
  C6. Against the final overload, \<open>checkFunctionMatch\<close> adds one conversion error for
  each supplied argument that fails \<open>isTypeMatch\<close>, in the order of the arguments, and
  no other conversion error; with exactly two mismatched positions \<open>i < j\<close> these are
  two diagnostics, the one of \<open>i\<close> and the one of \<open>j\<close>.
\<close>

theorem conversion_errors_accumulate:
  assumes "nextOverload (symbols h (calleeFunc args)) = None"
    and "length (callerArgs args) \<le> length (argList (callerNode args))"
    and "\<forall>j < length (callerArgs args). typeCheckReturns fuel h args j"
    and "length (callerArgs args)
           \<le> length (paramList (sourceNode (symbols h (calleeFunc args))))"
  shows "(\<exists>rest. checkFunctionMatch fuel h d args =
            Some (returnType (symbols h (calleeFunc args)),
                  pushReferenceOfFuncOrConstructor h (callerNode args) (scope args)
                    (calleeFunc args),
                  d @ map (conversionError h args)
                        (filter (mismatched fuel h args) [0 ..< length (callerArgs args)])
                    @ rest)
            \<and> filter isCannotConvert rest = [])
       \<and> (i < j \<and> j < length (callerArgs args)
           \<and> mismatched fuel h args i \<and> mismatched fuel h args j
           \<and> (\<forall>k < length (callerArgs args). k \<noteq> i \<and> k \<noteq> j \<longrightarrow> \<not> mismatched fuel h args k)
           \<longrightarrow> map (conversionError h args)
                 (filter (mismatched fuel h args) [0 ..< length (callerArgs args)])
               = [conversionError h args i, conversionError h args j])"
proof (rule conjI)
  let ?rest = "case firstMissing args 0 (paramList (sourceNode (symbols h (calleeFunc args)))) of
                 None \<Rightarrow> []
               | Some param \<Rightarrow> [missingArgumentError h args param]"
  have "filter isCannotConvert ?rest = []" by (simp split: option.splits)
  moreover have "checkFunctionMatch fuel h d args =
            Some (returnType (symbols h (calleeFunc args)),
                  pushReferenceOfFuncOrConstructor h (callerNode args) (scope args)
                    (calleeFunc args),
                  d @ map (conversionError h args)
                        (filter (mismatched fuel h args) [0 ..< length (callerArgs args)])
                    @ ?rest)"
    unfolding final_overload[OF assms] by (simp add: referAndReturn_def)
  ultimately show "\<exists>rest. checkFunctionMatch fuel h d args =
            Some (returnType (symbols h (calleeFunc args)),
                  pushReferenceOfFuncOrConstructor h (callerNode args) (scope args)
                    (calleeFunc args),
                  d @ map (conversionError h args)
                        (filter (mismatched fuel h args) [0 ..< length (callerArgs args)])
                    @ rest)
            \<and> filter isCannotConvert rest = []"
    by blast
next
  show "i < j \<and> j < length (callerArgs args)
           \<and> mismatched fuel h args i \<and> mismatched fuel h args j
           \<and> (\<forall>k < length (callerArgs args). k \<noteq> i \<and> k \<noteq> j \<longrightarrow> \<not> mismatched fuel h args k)
           \<longrightarrow> map (conversionError h args)
                 (filter (mismatched fuel h args) [0 ..< length (callerArgs args)])
               = [conversionError h args i, conversionError h args j]"
  proof
    assume "i < j \<and> j < length (callerArgs args)
           \<and> mismatched fuel h args i \<and> mismatched fuel h args j
           \<and> (\<forall>k < length (callerArgs args). k \<noteq> i \<and> k \<noteq> j \<longrightarrow> \<not> mismatched fuel h args k)"
    then have "filter (mismatched fuel h args) [0 ..< length (callerArgs args)] = [i, j]"
      by (intro filter_upt_two) simp_all
    then show "map (conversionError h args)
                 (filter (mismatched fuel h args) [0 ..< length (callerArgs args)])
               = [conversionError h args i, conversionError h args j]"
      by simp
  qed
qed

theorem conversion_errors_accumulate_witness:
  "\<exists>rest. checkFunctionMatch 0 exampleHeap []
            (exampleCall [Some stringType, Some boolType, Some intType] 16)
     = Some (Some boolType,
             pushReferenceOfFuncOrConstructor exampleHeap
               (NodeFuncCall (ParsedRange 100) 18
                  [ParsedRange 101, ParsedRange 102, ParsedRange 103]) 0 16,
             [(getNodeLocation (ParsedRange 101), CannotConvert ''string'' ''int''),
              (getNodeLocation (ParsedRange 102), CannotConvert ''bool'' ''int'')] @ rest)
     \<and> filter isCannotConvert rest = []"
proof -
  let ?c = "exampleCall [Some stringType, Some boolType, Some intType] 16"
  have g: "symbols exampleHeap 16 = SymbolicFunction 16
              (NodeFunc [NodeParam (Some 19) None, NodeParam (Some 20) None,
                         NodeParam (Some 21) None, NodeParam (Some 22) (Some 0)])
              (Some boolType) [Some intType, Some intType, Some intType, Some intType] None"
    by (simp add: exampleSymbols_def)
  have f: "nextOverload (symbols exampleHeap (calleeFunc ?c)) = None"
    by (simp add: g del: exampleHeap_fields)
  have l: "length (callerArgs ?c) \<le> length (argList (callerNode ?c))" by simp
  have t: "\<forall>j < length (callerArgs ?c). typeCheckReturns 0 exampleHeap ?c j"
    by (auto simp add: typeCheckReturns_def actualType_def expectedType_def elemAt_def g
          example_isTypeMatch All_less_Suc less_Suc_eq simp del: exampleHeap_fields)
  have p: "length (callerArgs ?c)
             \<le> length (paramList (sourceNode (symbols exampleHeap (calleeFunc ?c))))"
    by (simp add: g del: exampleHeap_fields)
  have m: "0 < Suc 0 \<and> Suc 0 < length (callerArgs ?c)
           \<and> mismatched 0 exampleHeap ?c 0 \<and> mismatched 0 exampleHeap ?c (Suc 0)
           \<and> (\<forall>k < length (callerArgs ?c). k \<noteq> 0 \<and> k \<noteq> Suc 0
                  \<longrightarrow> \<not> mismatched 0 exampleHeap ?c k)"
    by (auto simp add: mismatched_def actualType_def expectedType_def elemAt_def g
          example_isTypeMatch less_Suc_eq simp del: exampleHeap_fields)
  have c: "conversionError exampleHeap ?c 0
              = (getNodeLocation (ParsedRange 101), CannotConvert ''string'' ''int'')"
    "conversionError exampleHeap ?c (Suc 0)
              = (getNodeLocation (ParsedRange 102), CannotConvert ''bool'' ''int'')"
    by (simp_all add: conversionError_def actualType_def expectedType_def elemAt_def
          exampleSymbols_def exampleTokens_def stringType_def intType_def boolType_def upt_rec)
  from conversion_errors_accumulate[OF f l t p, where i = 0 and j = "Suc 0" and d = "[]"] m
  show ?thesis
    by (simp add: c g upt_rec del: exampleHeap_fields)
qed

section \<open>Insertion order and resolution order\<close>

lemma set_nextOverload_fields [simp]:
  "declaredPlace (set_nextOverload v x) = declaredPlace x"
  "symbolKind (set_nextOverload v x) = symbolKind x"
  "sourceNode (set_nextOverload v x) = sourceNode x"
  "returnType (set_nextOverload v x) = returnType x"
  "parameterTypes (set_nextOverload v x) = parameterTypes x"
  by (cases x; simp)+

lemma nextOverload_set [simp]:
  "symbolKind x = Function \<Longrightarrow> nextOverload (set_nextOverload v x) = v"
  by (cases x) simp_all

lemma assignNextOverload_fields [simp]:
  "tokens (assignNextOverload h c s) = tokens h"
  "nodes (assignNextOverload h c s) = nodes h"
  "scopes (assignNextOverload h c s) = scopes h"
  "symbols (assignNextOverload h c s) c = set_nextOverload (Some s) (symbols h c)"
  "r \<noteq> c \<Longrightarrow> symbols (assignNextOverload h c s) r = symbols h r"
  by (simp_all add: assignNextOverload_def)

lemma insert_overload:
  assumes "m (text' (tokens h (declaredPlace (symbols h symbol)))) = Some hit"
    and "symbolKind (symbols h symbol) = Function" and "symbolKind (symbols h hit) = Function"
    and "overloadChain (symbols h) hit cs"
  shows "insertSymbolicObject h d m symbol = Some (True, m, assignNextOverload h (last cs) symbol, d)"
  unfolding insertSymbolicObject_hit[where m = m and h = h and symbol = symbol, OF assms(1)]
  using assms(2,3) appendOverload_chain[OF assms(4), of symbol]
  by (simp add: assignNextOverload_def)

text \<open>
  C1. Let \<open>f1\<close>, \<open>f2\<close> and \<open>f3\<close> be three distinct Function symbols with one
  identifier, declaring 1, 2 and 3 parameters, none with a \<open>nextOverload\<close> yet, and let
  the identifier be unbound in the map. Inserting them in this order succeeds three
  times, without diagnostics; the map then binds the identifier to \<open>f1\<close>, which heads
  the overload chain \<open>f1\<close>, \<open>f2\<close>, \<open>f3\<close>. A call from the map's entry \<open>f1\<close> with two
  arguments, each accepted against the parameter of \<open>f2\<close> at its position, first
  rejects \<open>f1\<close> and goes on with \<open>f2\<close>, binds to \<open>f2\<close> (the reference edge refers to
  \<open>f2\<close>), returns the return type of \<open>f2\<close> and adds no diagnostic, whatever \<open>f3\<close>
  would accept: the first applicable overload is selected.
\<close>

theorem overload_chain_order:
  assumes "m (text' (tokens h (declaredPlace (symbols h f1)))) = None"
    and "text' (tokens h (declaredPlace (symbols h f2)))
           = text' (tokens h (declaredPlace (symbols h f1)))"
    and "text' (tokens h (declaredPlace (symbols h f3)))
           = text' (tokens h (declaredPlace (symbols h f1)))"
    and "symbolKind (symbols h f1) = Function" and "symbolKind (symbols h f2) = Function"
    and "symbolKind (symbols h f3) = Function"
    and "nextOverload (symbols h f1) = None" and "nextOverload (symbols h f2) = None"
    and "nextOverload (symbols h f3) = None"
    and "f1 \<noteq> f2" and "f1 \<noteq> f3" and "f2 \<noteq> f3"
    and "length (paramList (sourceNode (symbols h f1))) = 1"
    and "length (paramList (sourceNode (symbols h f2))) = 2"
    and "length (paramList (sourceNode (symbols h f3))) = 3"
  shows "\<exists>m'. insertSymbolicObject h d m f1 = Some (True, m', h, d)
      \<and> insertSymbolicObject h d m' f2 = Some (True, m', assignNextOverload h f1 f2, d)
      \<and> insertSymbolicObject (assignNextOverload h f1 f2) d m' f3
          = Some (True, m', assignNextOverload (assignNextOverload h f1 f2) f2 f3, d)
      \<and> m' (text' (tokens h (declaredPlace (symbols h f1)))) = Some f1
      \<and> overloadChain (symbols (assignNextOverload (assignNextOverload h f1 f2) f2 f3)) f1
           [f1, f2, f3]
      \<and> (\<forall>args e. calleeFunc args = f1 \<and> length (callerArgs args) = 2
            \<and> accepted fuel (assignNextOverload (assignNextOverload h f1 f2) f2 f3)
                 (args\<lparr>calleeFunc := f2\<rparr>) 0
            \<and> accepted fuel (assignNextOverload (assignNextOverload h f1 f2) f2 f3)
                 (args\<lparr>calleeFunc := f2\<rparr>) 1
            \<longrightarrow> checkFunctionMatch (Suc fuel)
                  (assignNextOverload (assignNextOverload h f1 f2) f2 f3) e args
                = checkFunctionMatch fuel
                    (assignNextOverload (assignNextOverload h f1 f2) f2 f3) e
                    (args\<lparr>calleeFunc := f2\<rparr>)
              \<and> checkFunctionMatch (Suc fuel)
                  (assignNextOverload (assignNextOverload h f1 f2) f2 f3) e args
                = Some (returnType (symbols h f2),
                        pushReferenceOfFuncOrConstructor
                          (assignNextOverload (assignNextOverload h f1 f2) f2 f3)
                          (callerNode args) (scope args) f2,
                        e))"
proof -
  let ?name = "text' (tokens h (declaredPlace (symbols h f1)))"
  let ?m = "m(?name \<mapsto> f1)"
  let ?h2 = "assignNextOverload h f1 f2"
  let ?h3 = "assignNextOverload ?h2 f2 f3"
  have ne [simp]: "f2 \<noteq> f1" "f3 \<noteq> f1" "f3 \<noteq> f2" "f1 \<noteq> f2" "f1 \<noteq> f3" "f2 \<noteq> f3"
    using assms(10,11,12) by auto
  have i1: "insertSymbolicObject h d m f1 = Some (True, ?m, h, d)"
    using assms(1) by (rule insertSymbolicObject_absent)
  have i2: "insertSymbolicObject h d ?m f2 = Some (True, ?m, ?h2, d)"
    using insert_overload[where m = ?m and h = h and symbol = f2 and hit = f1 and cs = "[f1]" and d = d]
      assms(2,4,5,7)
    by simp
  have s3: "symbols ?h2 f3 = symbols h f3" using assms(11) by simp
  have i3: "insertSymbolicObject ?h2 d ?m f3 = Some (True, ?m, ?h3, d)"
    using insert_overload[where m = ?m and h = ?h2 and symbol = f3 and hit = f1
            and cs = "[f1, f2]" and d = d]
      assms(3,4,5,6,7,8,10,11)
    by (simp add: s3)
  have n1: "nextOverload (symbols ?h3 f1) = Some f2"
    using assms(4,10) by simp
  have n2: "nextOverload (symbols ?h3 f2) = Some f3"
    using assms(5) by simp
  have n3: "nextOverload (symbols ?h3 f3) = None"
    using assms(9,11,12) by simp
  have ch: "overloadChain (symbols ?h3) f1 [f1, f2, f3]"
    using n1 n2 n3 by simp
  have p1: "length (paramList (sourceNode (symbols ?h3 f1))) = 1"
    using assms(10,13) by simp
  have p2: "length (paramList (sourceNode (symbols ?h3 f2))) = 2"
    using assms(14) by simp
  have r2: "returnType (symbols ?h3 f2) = returnType (symbols h f2)" by simp
  have call: "checkFunctionMatch (Suc fuel) ?h3 e args
                = checkFunctionMatch fuel ?h3 e (args\<lparr>calleeFunc := f2\<rparr>)
              \<and> checkFunctionMatch (Suc fuel) ?h3 e args
                = Some (returnType (symbols h f2),
                        pushReferenceOfFuncOrConstructor ?h3 (callerNode args) (scope args) f2, e)"
    if a: "calleeFunc args = f1 \<and> length (callerArgs args) = 2
            \<and> accepted fuel ?h3 (args\<lparr>calleeFunc := f2\<rparr>) 0
            \<and> accepted fuel ?h3 (args\<lparr>calleeFunc := f2\<rparr>) 1" for args e
  proof -
    let ?args = "args\<lparr>calleeFunc := f2\<rparr>"
    from a p1 have "length (paramList (sourceNode (symbols ?h3 (calleeFunc args))))
                      < length (callerArgs args)" by simp
    then have "checkFunctionMatch (Suc fuel) ?h3 e args = handleTooMuchCallerArgs (Suc fuel) ?h3 e args"
      by (rule checkFunctionMatch_too_many)
    also have "\<dots> = checkFunctionMatch fuel ?h3 e ?args"
      using a n1 by (simp add: handleTooMuchCallerArgs_next)
    finally have first: "checkFunctionMatch (Suc fuel) ?h3 e args
                           = checkFunctionMatch fuel ?h3 e ?args" .
    from p2 obtain q0 q1 where ps: "paramList (sourceNode (symbols ?h3 f2)) = [q0, q1]"
      by (cases "paramList (sourceNode (symbols ?h3 f2))" rule: list.exhaust;
          simp add: length_Suc_conv) (metis length_0_conv length_Suc_conv Suc_1 Suc_inject)
    have "checkFunctionMatch fuel ?h3 e ?args
            = checkFunctionMatch_loop fuel ?h3 e ?args 0 [q0, q1]"
      using a p2 ps checkFunctionMatch_enough[of ?args ?h3 fuel e] by simp
    also have "\<dots> = checkFunctionMatch_loop fuel ?h3 e ?args (Suc 0) [q1]"
      using a by (intro loop_accepted) simp_all
    also have "\<dots> = checkFunctionMatch_loop fuel ?h3 e ?args (Suc (Suc 0)) []"
      using a by (intro loop_accepted) simp_all
    also have "\<dots> = Some (returnType (symbols h f2),
                        pushReferenceOfFuncOrConstructor ?h3 (callerNode args) (scope args) f2, e)"
      by (simp add: loop_Nil referAndReturn_def r2 del: assignNextOverload_fields)
    finally show ?thesis using first by simp
  qed
  have m1: "?m ?name = Some f1" by simp
  from i1 i2 i3 m1 ch call show ?thesis by blast
qed

theorem overload_chain_order_witness:
  "overloadChain
     (symbols (assignNextOverload (assignNextOverload exampleHeap 9 10) 10 11)) 9 [9, 10, 11]
   \<and> checkFunctionMatch (Suc 0) (assignNextOverload (assignNextOverload exampleHeap 9 10) 10 11) []
       \<lparr>scope = 0,
        callerNode = NodeFuncCall (ParsedRange 100) 17 [ParsedRange 101, ParsedRange 102],
        callerArgs = [Some intType, Some stringType], calleeFunc = 9,
        templateTranslator = None\<rparr>
     = Some (Some boolType,
             pushReferenceOfFuncOrConstructor
               (assignNextOverload (assignNextOverload exampleHeap 9 10) 10 11)
               (NodeFuncCall (ParsedRange 100) 17 [ParsedRange 101, ParsedRange 102]) 0 10,
             [])"
proof -
  let ?h3 = "assignNextOverload (assignNextOverload exampleHeap 9 10) 10 11"
  let ?args = "\<lparr>scope = 0,
        callerNode = NodeFuncCall (ParsedRange 100) 17 [ParsedRange 101, ParsedRange 102],
        callerArgs = [Some intType, Some stringType], calleeFunc = 9,
        templateTranslator = None\<rparr>"
  have f: "symbols exampleHeap 9 = SymbolicFunction 9 (NodeFunc [NodeParam (Some 19) None])
             (Some intType) [Some intType] None"
    "symbols exampleHeap 10 = SymbolicFunction 10
             (NodeFunc [NodeParam (Some 19) None, NodeParam (Some 20) None])
              (Some boolType) [Some intType, Some stringType] None"
    "symbols exampleHeap 11 = SymbolicFunction 11
              (NodeFunc [NodeParam (Some 19) None, NodeParam (Some 20) None,
                         NodeParam (Some 21) (Some 0)])
              (Some stringType) [Some intType, Some stringType, Some boolType] None"
    by (simp_all add: exampleSymbols_def)
  have t: "tokens exampleHeap 9 = ParsingToken ''f'' (LocationInfo 9)"
    "tokens exampleHeap 10 = ParsingToken ''f'' (LocationInfo 10)"
    "tokens exampleHeap 11 = ParsingToken ''f'' (LocationInfo 11)"
    by (simp_all add: exampleTokens_def)
  have s: "symbols ?h3 0 = exampleSymbols 0" "symbols ?h3 (Suc 0) = exampleSymbols (Suc 0)"
    by simp_all
  have m: "isTypeMatch 0 ?h3 (Some intType) (Some intType) = Some True"
    "isTypeMatch 0 ?h3 (Some stringType) (Some stringType) = Some True"
    by (simp_all add: isTypeMatch_selfResolved selfResolved_def isTypeMatchInternal_types
          canCastFromPrimitiveType_def intType_def stringType_def s
          exampleSymbols_def exampleTokens_def)
  have a: "calleeFunc ?args = 9 \<and> length (callerArgs ?args) = 2
            \<and> accepted 0 ?h3 (?args\<lparr>calleeFunc := 10\<rparr>) 0
            \<and> accepted 0 ?h3 (?args\<lparr>calleeFunc := 10\<rparr>) 1"
    by (simp add: accepted_def actualType_def expectedType_def elemAt_def f m
          del: exampleHeap_fields)
  from overload_chain_order[where h = exampleHeap and m = Map.empty and d = "[]"
         and ?f1.0 = 9 and ?f2.0 = 10 and ?f3.0 = 11 and fuel = 0]
  obtain m' where
    "overloadChain (symbols ?h3) 9 [9, 10, 11]
      \<and> (\<forall>args e. calleeFunc args = 9 \<and> length (callerArgs args) = 2
            \<and> accepted 0 ?h3 (args\<lparr>calleeFunc := 10\<rparr>) 0
            \<and> accepted 0 ?h3 (args\<lparr>calleeFunc := 10\<rparr>) 1
            \<longrightarrow> checkFunctionMatch (Suc 0) ?h3 e args
                = checkFunctionMatch 0 ?h3 e (args\<lparr>calleeFunc := 10\<rparr>)
              \<and> checkFunctionMatch (Suc 0) ?h3 e args
                = Some (returnType (symbols exampleHeap 10),
                        pushReferenceOfFuncOrConstructor ?h3 (callerNode args) (scope args) 10,
                        e))"
    by (simp add: f t del: exampleHeap_fields) blast
  with a have "overloadChain (symbols ?h3) 9 [9, 10, 11]
      \<and> checkFunctionMatch (Suc 0) ?h3 [] ?args
                = Some (returnType (symbols exampleHeap 10),
                        pushReferenceOfFuncOrConstructor ?h3 (callerNode ?args) (scope ?args) 10,
                        [])"
    by blast
  then show ?thesis by (simp add: f del: exampleHeap_fields)
qed

end
